theory Spec2Isabelle
  imports Complex_Main
begin

section \<open>Double-precision arithmetic\<close>

text \<open>
  A Python float is an IEEE 754 double. A finite double is modelled by the real number it
  denotes, and an arithmetic operation by the exact result rounded to the nearest double,
  ties to even (\<open>rnd\<close>, subnormal numbers included). What the platform's C library
  computes (\<open>sin\<close>, \<open>cos\<close>, \<open>asin\<close>, \<open>pow\<close>) is not fixed by IEEE 754: these functions are
  parameters, the record \<open>libm\<close>, and nothing is assumed about them beyond the values the C
  standard fixes at zero. Infinities, NaN and overflow are outside the model.
  A result of type \<open>error + 'a\<close> is \<open>Inl e\<close> when the call raises \<open>e\<close>.
\<close>

datatype error =
    ValueError | StatisticsError | TypeError | JSONDecodeError | RedisError
  | HTTPException nat

definition round_half_even :: "real \<Rightarrow> int" where
  "round_half_even y =
     (let f = \<lfloor>y\<rfloor>; r = y - of_int f
      in if r < 1 / 2 then f else if 1 / 2 < r then f + 1 else if even f then f else f + 1)"

definition rnd :: "real \<Rightarrow> real" where
  "rnd x =
     (if x = 0 then 0
      else let e = max (\<lfloor>log 2 \<bar>x\<bar>\<rfloor> - 52) (- 1074)
           in of_int (round_half_even (x / 2 powr of_int e)) * 2 powr of_int e)"

definition fadd :: "real \<Rightarrow> real \<Rightarrow> real" where
  "fadd x y = rnd (x + y)"

definition fsub :: "real \<Rightarrow> real \<Rightarrow> real" where
  "fsub x y = rnd (x - y)"

definition fmul :: "real \<Rightarrow> real \<Rightarrow> real" where
  "fmul x y = rnd (x * y)"

definition fdiv :: "real \<Rightarrow> real \<Rightarrow> real" where
  "fdiv x y = rnd (x / y)"

record libm =
  l_sin :: "real \<Rightarrow> real"
  l_cos :: "real \<Rightarrow> real"
  l_asin :: "real \<Rightarrow> real"
  l_pow :: "real \<Rightarrow> real \<Rightarrow> real"

definition math_sin :: "libm \<Rightarrow> real \<Rightarrow> real" where
  "math_sin L x = (if x = 0 then 0 else l_sin L x)"

definition math_cos :: "libm \<Rightarrow> real \<Rightarrow> real" where
  "math_cos L x = (if x = 0 then 1 else l_cos L x)"

text \<open>\<open>x ** y\<close> on floats, used with a positive exponent only.\<close>

definition float_pow :: "libm \<Rightarrow> real \<Rightarrow> real \<Rightarrow> real" where
  "float_pow L x y = (if x = 0 then 0 else l_pow L x y)"

definition math_sqrt :: "real \<Rightarrow> error + real" where
  "math_sqrt x = (if x < 0 then Inl ValueError else Inr (rnd (sqrt x)))"

definition math_asin :: "libm \<Rightarrow> real \<Rightarrow> error + real" where
  "math_asin L x =
     (if x < -1 \<or> 1 < x then Inl ValueError
      else Inr (if x = 0 then 0 else l_asin L x))"

text \<open>\<open>math.radians(x)\<close> is \<open>x * degToRad\<close> with the constant \<open>Py_MATH_PI / 180.0\<close>.\<close>

definition deg_to_rad :: real where
  "deg_to_rad = rnd (rnd pi / 180)"

definition radians :: "real \<Rightarrow> real" where
  "radians x = fmul x deg_to_rad"

section \<open>Geo math (detector.py, \<open>_haversine_distance\<close>)\<close>

definition earth_radius :: real where
  "earth_radius = 6371000"

definition haversine_a :: "libm \<Rightarrow> real \<Rightarrow> real \<Rightarrow> real \<Rightarrow> real \<Rightarrow> real" where
  "haversine_a L lat1 lon1 lat2 lon2 =
     (let dlat = radians (fsub lat2 lat1);
          dlon = radians (fsub lon2 lon1)
      in fadd (float_pow L (math_sin L (fdiv dlat 2)) 2)
              (fmul (fmul (math_cos L (radians lat1)) (math_cos L (radians lat2)))
                    (float_pow L (math_sin L (fdiv dlon 2)) 2)))"

definition haversine_distance ::
    "libm \<Rightarrow> real \<Rightarrow> real \<Rightarrow> real \<Rightarrow> real \<Rightarrow> error + real" where
  "haversine_distance L lat1 lon1 lat2 lon2 =
     (case math_sqrt (haversine_a L lat1 lon1 lat2 lon2) of
        Inl e \<Rightarrow> Inl e
      | Inr r \<Rightarrow> (case math_asin L r of
                   Inl e \<Rightarrow> Inl e
                 | Inr v \<Rightarrow> Inr (fmul (2 * earth_radius) v)))"


section \<open>Data model (models.py, detector.py)\<close>

text \<open>
  \<open>bus_data\<close> is the dictionary \<open>BusUpdate.dict()\<close> that every caller in main.py hands to
  the detector: all keys of the pydantic model are present, \<open>speed\<close>, \<open>bearing\<close> and
  \<open>trip_id\<close> may hold \<open>None\<close>. The defaults of the detector's \<open>bus_data.get(key, default)\<close>
  apply to absent keys only, so they never fire on such a dictionary.
\<close>

record bus_data =
  bus_id :: string
  lat :: real
  lon :: real
  route_id :: string
  speed :: "real option"
  timestamp :: real
  bearing :: "real option"
  trip_id :: "string option"

record position_entry =
  e_lat :: real
  e_lon :: real
  e_timestamp :: real
  e_speed :: "real option"

record ghost_bus_detector =
  position_history :: "string \<rightharpoonup> position_entry list"
  speed_history :: "string \<rightharpoonup> real list"

text \<open>The thresholds set once in \<open>__init__\<close> and never assigned again.\<close>

definition stale_threshold :: real where
  "stale_threshold = 120"

definition stationary_threshold :: real where
  "stationary_threshold = 60"

definition max_history_length :: nat where
  "max_history_length = 60"

definition init_detector :: ghost_bus_detector where
  "init_detector = \<lparr>position_history = Map.empty, speed_history = Map.empty\<rparr>"

text \<open>Python's slice \<open>xs[-n:]\<close>: the last \<open>n\<close> elements, the whole list when \<open>n = 0\<close>.\<close>

definition slice_last :: "nat \<Rightarrow> 'a list \<Rightarrow> 'a list" where
  "slice_last n xs = (if n = 0 then xs else drop (length xs - n) xs)"

text \<open>\<open>statistics.mean\<close> adds the data exactly, as fractions, and rounds the quotient once.\<close>

definition statistics_mean :: "real list \<Rightarrow> error + real" where
  "statistics_mean xs =
     (if xs = [] then Inl StatisticsError else Inr (rnd (sum_list xs / real (length xs))))"

section \<open>The history window (\<open>_store_position_history\<close>)\<close>

definition entry_of :: "bus_data \<Rightarrow> position_entry" where
  "entry_of d = \<lparr>e_lat = lat d, e_lon = lon d, e_timestamp = timestamp d, e_speed = speed d\<rparr>"

definition store_position_history ::
    "ghost_bus_detector \<Rightarrow> string \<Rightarrow> bus_data \<Rightarrow> ghost_bus_detector" where
  "store_position_history self bid d =
     (let hist0 = (case position_history self bid of None \<Rightarrow> [] | Some h \<Rightarrow> h);
          hist1 = hist0 @ [entry_of d];
          hist2 = (if length hist1 > max_history_length
                   then slice_last max_history_length hist1 else hist1)
      in self\<lparr>position_history := (position_history self)(bid \<mapsto> hist2)\<rparr>)"

section \<open>The rules\<close>

text \<open>The loop \<open>for i in range(1, len(recent_positions))\<close> that sums the leg distances.\<close>

function distance_loop :: "libm \<Rightarrow> position_entry list \<Rightarrow> nat \<Rightarrow> real \<Rightarrow> error + real" where
  "distance_loop L ps i total_distance =
     (if i < length ps
      then (case haversine_distance L (e_lat (ps ! (i - 1))) (e_lon (ps ! (i - 1)))
                                      (e_lat (ps ! i)) (e_lon (ps ! i)) of
              Inl e \<Rightarrow> Inl e
            | Inr distance \<Rightarrow> distance_loop L ps (i + 1) (fadd total_distance distance))
      else Inr total_distance)"
  by pat_completeness auto
termination
  by (relation "measure (\<lambda>(L, ps, i, total_distance). length ps - i)") auto

declare distance_loop.simps [simp del]

definition is_stationary_at_non_stop ::
    "libm \<Rightarrow> ghost_bus_detector \<Rightarrow> string \<Rightarrow> bus_data \<Rightarrow> error + bool" where
  "is_stationary_at_non_stop L self bid d =
     (case position_history self bid of
        None \<Rightarrow> Inr False
      | Some history \<Rightarrow>
          if length history < 3 then Inr False
          else
            let recent_positions = slice_last 5 history in
            if length recent_positions < 3 then Inr False
            else
              (case distance_loop L recent_positions 1 0 of
                 Inl e \<Rightarrow> Inl e
               | Inr total_distance \<Rightarrow>
                   let time_span =
                         fsub (e_timestamp (recent_positions ! (length recent_positions - 1)))
                              (e_timestamp (recent_positions ! 0))
                   in if total_distance < 20 \<and> time_span > stationary_threshold
                      then Inr True else Inr False))"

definition detect_speed_anomaly ::
    "ghost_bus_detector \<Rightarrow> string \<Rightarrow> real option
       \<Rightarrow> error + (string option \<times> ghost_bus_detector)" where
  "detect_speed_anomaly self bid current_speed_opt =
     (case current_speed_opt of
        None \<Rightarrow> Inr (None, self)
      | Some current_speed \<Rightarrow>
          let h0 = (case speed_history self bid of None \<Rightarrow> [] | Some h \<Rightarrow> h);
              h1 = h0 @ [current_speed];
              speeds = (if length h1 > max_history_length
                        then slice_last max_history_length h1 else h1);
              self' = self\<lparr>speed_history := (speed_history self)(bid \<mapsto> speeds)\<rparr>
          in if length speeds < 5 then Inr (None, self')
             else
               (case statistics_mean speeds of
                  Inl e \<Rightarrow> Inl e
                | Inr avg_speed \<Rightarrow>
                    if avg_speed > 0 \<and> current_speed > fmul avg_speed 3
                    then Inr (Some ''speed_spike'', self')
                    else if avg_speed > 10 \<and> current_speed < fmul avg_speed (rnd 0.3)
                    then Inr (Some ''speed_drop'', self')
                    else Inr (None, self')))"

definition is_off_route :: "bus_data \<Rightarrow> bool" where
  "is_off_route d =
     (\<not> (37.0 \<le> lat d \<and> lat d \<le> 41.0 \<and> -109.0 \<le> lon d \<and> lon d \<le> -102.0))"

definition critical_anomalies :: "string set" where
  "critical_anomalies = {''stale_data'', ''off_route''}"

definition warning_anomalies :: "string set" where
  "warning_anomalies = {''stationary_non_stop'', ''speed_spike'', ''speed_drop''}"

definition calculate_severity :: "string list \<Rightarrow> string" where
  "calculate_severity anomaly_types =
     (if anomaly_types = [] then ''info''
      else if list_ex (\<lambda>anomaly. anomaly \<in> critical_anomalies) anomaly_types
      then ''critical''
      else if list_ex (\<lambda>anomaly. anomaly \<in> warning_anomalies) anomaly_types
      then ''warning''
      else ''info'')"

text \<open>
  \<open>detect_anomalies\<close>: \<open>now\<close> is the value of the one \<open>time.time()\<close> call at its start.
  The result is the returned triple and the detector as the call leaves it.
\<close>

definition detect_anomalies ::
    "libm \<Rightarrow> real \<Rightarrow> ghost_bus_detector \<Rightarrow> bus_data
       \<Rightarrow> error + ((bool \<times> string list \<times> string) \<times> ghost_bus_detector)" where
  "detect_anomalies L now self d =
     (let bid = bus_id d;
          current_time = now;
          last_update = timestamp d;
          a1 = (if fsub current_time last_update > stale_threshold
                then [''stale_data''] else []);
          self1 = store_position_history self bid d
      in case is_stationary_at_non_stop L self1 bid d of
           Inl e \<Rightarrow> Inl e
         | Inr stationary \<Rightarrow>
             let a2 = (if stationary then a1 @ [''stationary_non_stop''] else a1)
             in (case detect_speed_anomaly self1 bid (speed d) of
                   Inl e \<Rightarrow> Inl e
                 | Inr (speed_anomaly, self2) \<Rightarrow>
                     let a3 = (case speed_anomaly of
                                 None \<Rightarrow> a2 | Some t \<Rightarrow> a2 @ [t]);
                         a4 = (if is_off_route d then a3 @ [''off_route''] else a3);
                         is_ghost = (length a4 > 0);
                         severity = calculate_severity a4
                     in Inr ((is_ghost, a4, severity), self2)))"


section \<open>The rules as the specification words them\<close>

text \<open>
  The great-circle distance of the haversine formula over the real numbers, with no
  rounding, and the cumulative path distance as the sum of the distances of consecutive
  pairs: the quantities as the specification words them.
\<close>

definition spec_haversine_a :: "real \<Rightarrow> real \<Rightarrow> real \<Rightarrow> real \<Rightarrow> real" where
  "spec_haversine_a lat1 lon1 lat2 lon2 =
     (sin ((lat2 - lat1) * (pi / 180) / 2))\<^sup>2
     + cos (lat1 * (pi / 180)) * cos (lat2 * (pi / 180))
       * (sin ((lon2 - lon1) * (pi / 180) / 2))\<^sup>2"

definition spec_distance :: "real \<Rightarrow> real \<Rightarrow> real \<Rightarrow> real \<Rightarrow> real" where
  "spec_distance lat1 lon1 lat2 lon2 =
     2 * 6371000 * arcsin (sqrt (spec_haversine_a lat1 lon1 lat2 lon2))"

fun spec_path_distance :: "position_entry list \<Rightarrow> real" where
  "spec_path_distance (p # q # rest) =
     spec_distance (e_lat p) (e_lon p) (e_lat q) (e_lon q) + spec_path_distance (q # rest)"
| "spec_path_distance _ = 0"

text \<open>
  The same sum as the code computes it: every leg by \<open>_haversine_distance\<close>, added to the
  running total in double precision, in the order of the samples.
\<close>

fun sum_legs :: "libm \<Rightarrow> real \<Rightarrow> position_entry list \<Rightarrow> error + real" where
  "sum_legs L acc (p # q # rest) =
     (case haversine_distance L (e_lat p) (e_lon p) (e_lat q) (e_lon q) of
        Inl e \<Rightarrow> Inl e
      | Inr m \<Rightarrow> sum_legs L (fadd acc m) (q # rest))"
| "sum_legs L acc _ = Inr acc"

definition spec_classify :: "string set \<Rightarrow> string" where
  "spec_classify tags =
     (if tags = {} then ''info''
      else if tags \<inter> {''stale_data'', ''off_route''} \<noteq> {} then ''critical''
      else if tags \<inter> {''stationary_non_stop'', ''speed_spike'', ''speed_drop''} \<noteq> {}
      then ''warning''
      else ''info'')"

text \<open>Projections of what \<open>detect_anomalies\<close> returns.\<close>

definition ghost_of :: "(bool \<times> string list \<times> string) \<times> ghost_bus_detector \<Rightarrow> bool" where
  "ghost_of r = fst (fst r)"

definition tags_of :: "(bool \<times> string list \<times> string) \<times> ghost_bus_detector \<Rightarrow> string list" where
  "tags_of r = fst (snd (fst r))"

definition severity_of :: "(bool \<times> string list \<times> string) \<times> ghost_bus_detector \<Rightarrow> string" where
  "severity_of r = snd (snd (fst r))"

definition detector_of ::
    "(bool \<times> string list \<times> string) \<times> ghost_bus_detector \<Rightarrow> ghost_bus_detector" where
  "detector_of r = snd r"

section \<open>The read handlers (main.py)\<close>

record bus_status =
  data :: bus_data
  is_ghost :: bool
  anomaly_types :: "string list"
  severity :: string
  status :: string

text \<open>
  \<open>active_buses\<close> is a dictionary iterated in insertion order: an association list.
  Every call of \<open>detect_anomalies\<close> reads the clock; \<open>clock i\<close> is the reading of the
  \<open>i\<close>-th call made by a handler.
\<close>

record app_state =
  active_buses :: "(string \<times> bus_data) list"
  detector :: ghost_bus_detector

definition enriched :: "bus_data \<Rightarrow> bool \<times> string list \<times> string \<Rightarrow> bus_status" where
  "enriched bus r =
     (case r of (g, tags, sev) \<Rightarrow>
        \<lparr>data = bus, is_ghost = g, anomaly_types = tags, severity = sev,
         status = (if g then ''ghost'' else ''active'')\<rparr>)"

fun get_all_buses_loop ::
    "libm \<Rightarrow> (nat \<Rightarrow> real) \<Rightarrow> nat \<Rightarrow> (string \<times> bus_data) list \<Rightarrow> ghost_bus_detector
       \<Rightarrow> bus_status list \<Rightarrow> error + (bus_status list \<times> ghost_bus_detector)" where
  "get_all_buses_loop L clock i [] det buses_data = Inr (buses_data, det)"
| "get_all_buses_loop L clock i ((bid, bus) # items) det buses_data =
     (case detect_anomalies L (clock i) det bus of
        Inl e \<Rightarrow> Inl e
      | Inr (r, det') \<Rightarrow>
          get_all_buses_loop L clock (i + 1) items det' (buses_data @ [enriched bus r]))"

definition get_all_buses ::
    "libm \<Rightarrow> (nat \<Rightarrow> real) \<Rightarrow> app_state \<Rightarrow> error + ((bus_status list \<times> nat) \<times> app_state)" where
  "get_all_buses L clock app =
     (case get_all_buses_loop L clock 0 (active_buses app) (detector app) [] of
        Inl e \<Rightarrow> Inl e
      | Inr (buses_data, det') \<Rightarrow>
          Inr ((buses_data, length buses_data), app\<lparr>detector := det'\<rparr>))"

definition get_bus ::
    "libm \<Rightarrow> (nat \<Rightarrow> real) \<Rightarrow> app_state \<Rightarrow> string \<Rightarrow> error + (bus_status \<times> app_state)" where
  "get_bus L clock app bid =
     (case map_of (active_buses app) bid of
        None \<Rightarrow> Inl (HTTPException 404)
      | Some bus \<Rightarrow>
          (case detect_anomalies L (clock 0) (detector app) bus of
             Inl e \<Rightarrow> Inl e
           | Inr (r, det') \<Rightarrow> Inr (enriched bus r, app\<lparr>detector := det'\<rparr>)))"

section \<open>The connection manager (websocket_manager.py)\<close>








section \<open>The durable store (storage.py)\<close>

text \<open>
  The Redis client is an external collaborator: each of its awaited calls either raises
  (\<open>Inl\<close>) or returns, as the record of its answers says. A dictionary with string keys is
  an association list; a value \<open>None\<close> of Python is \<open>None\<close> here. The library functions
  \<open>str\<close>, \<open>float\<close>, \<open>json.dumps\<close> and \<open>json.loads\<close> are parameters (\<open>str_of\<close>,
  \<open>py_float\<close>, \<open>dumps\<close>, \<open>loads\<close>); the last three may raise.
\<close>

record redis_client =
  r_ping :: "error + unit"
  r_hset :: "string \<Rightarrow> string \<Rightarrow> string \<Rightarrow> error + unit"
  r_hset_mapping :: "string \<Rightarrow> (string \<times> string) list \<Rightarrow> error + unit"
  r_expire :: "string \<Rightarrow> nat \<Rightarrow> error + unit"
  r_lpush :: "string \<Rightarrow> string \<Rightarrow> error + unit"
  r_ltrim :: "string \<Rightarrow> int \<Rightarrow> int \<Rightarrow> error + unit"
  r_hgetall :: "string \<Rightarrow> error + (string \<times> string) list"
  r_keys :: "string \<Rightarrow> error + string list"
  r_lrange :: "string \<Rightarrow> int \<Rightarrow> int \<Rightarrow> error + string list"
  r_publish :: "string \<Rightarrow> string \<Rightarrow> error + unit"
  r_pubsub :: "error + nat"
  r_subscribe :: "nat \<Rightarrow> string \<Rightarrow> error + unit"

record redis_storage =
  redis :: "redis_client option"
  pubsub :: "nat option"

record stored_position =
  sp_id :: "string option"
  sp_lat :: real
  sp_lon :: real
  sp_route_id :: "string option"
  sp_speed :: "real option"
  sp_timestamp :: real
  sp_bearing :: "real option"

text \<open>Sequencing inside a \<open>try\<close> block: the first statement that raises ends the block.\<close>

definition then_e :: "error + 'a \<Rightarrow> ('a \<Rightarrow> error + 'b) \<Rightarrow> error + 'b" where
  "then_e m f = (case m of Inl e \<Rightarrow> Inl e | Inr x \<Rightarrow> f x)"

text \<open>\<open>try: body except Exception: log; return fallback\<close>.\<close>

definition try_except :: "error + 'a \<Rightarrow> 'a \<Rightarrow> error + 'a" where
  "try_except body fallback = (case body of Inl e \<Rightarrow> Inr fallback | Inr x \<Rightarrow> Inr x)"

definition filter_none :: "(string \<times> 'v option) list \<Rightarrow> (string \<times> 'v) list" where
  "filter_none items = List.map_filter (\<lambda>(k, v). map_option (Pair k) v) items"

definition dict_get :: "(string \<times> 'v option) list \<Rightarrow> string \<Rightarrow> 'v option" where
  "dict_get d k = (case map_of d k of None \<Rightarrow> None | Some v \<Rightarrow> v)"

definition endswith :: "string \<Rightarrow> string \<Rightarrow> bool" where
  "endswith s suffix =
     (length suffix \<le> length s \<and> drop (length s - length suffix) s = suffix)"

definition connect :: "(error + redis_client) \<Rightarrow> redis_storage \<Rightarrow> error + redis_storage" where
  "connect from_url self =
     (case then_e from_url (\<lambda>r. then_e (r_ping r) (\<lambda>_. Inr r)) of
        Inl e \<Rightarrow> Inr (self\<lparr>redis := None\<rparr>)
      | Inr r \<Rightarrow> Inr (self\<lparr>redis := Some r\<rparr>))"

fun hset_loop ::
    "redis_client \<Rightarrow> string \<Rightarrow> ('v \<Rightarrow> string) \<Rightarrow> (string \<times> 'v) list \<Rightarrow> error + unit" where
  "hset_loop r key str_of [] = Inr ()"
| "hset_loop r key str_of ((field, val) # rest) =
     then_e (r_hset r key field (str_of val)) (\<lambda>_. hset_loop r key str_of rest)"

definition store_bus_position ::
    "redis_storage \<Rightarrow> ('v \<Rightarrow> string) \<Rightarrow> ((string \<times> 'v) list \<Rightarrow> error + string)
       \<Rightarrow> string \<Rightarrow> (string \<times> 'v option) list \<Rightarrow> error + unit" where
  "store_bus_position self str_of dumps bid bus_data =
     (case redis self of
        None \<Rightarrow> Inr ()
      | Some r \<Rightarrow>
          try_except
            (let filtered_data = filter_none bus_data;
                 key = ''bus:'' @ bid
             in then_e (if filtered_data \<noteq> []
                        then then_e (hset_loop r key str_of filtered_data)
                               (\<lambda>_. r_expire r key 300)
                        else Inr ())
                  (\<lambda>_. let history_key = ''bus:'' @ bid @ '':history'';
                            position_entry = filter_none
                              [(''lat'', dict_get bus_data ''lat''),
                               (''lon'', dict_get bus_data ''lon''),
                               (''timestamp'', dict_get bus_data ''timestamp''),
                               (''speed'', dict_get bus_data ''speed'')]
                        in if position_entry \<noteq> []
                           then then_e (dumps position_entry) (\<lambda>j.
                                then_e (r_lpush r history_key j) (\<lambda>_.
                                then_e (r_ltrim r history_key 0 59) (\<lambda>_.
                                r_expire r history_key 3600)))
                           else Inr ()))
            ())"

text \<open>\<open>float(data.get(k, 0))\<close> and \<open>float(data.get(k, 0)) if data.get(k) else None\<close>.\<close>

definition float_or_zero ::
    "(string \<Rightarrow> error + real) \<Rightarrow> (string \<times> string) list \<Rightarrow> string \<Rightarrow> error + real" where
  "float_or_zero py_float d k = (case map_of d k of None \<Rightarrow> Inr 0 | Some s \<Rightarrow> py_float s)"

definition float_if_set ::
    "(string \<Rightarrow> error + real) \<Rightarrow> (string \<times> string) list \<Rightarrow> string
       \<Rightarrow> error + real option" where
  "float_if_set py_float d k =
     (case map_of d k of
        None \<Rightarrow> Inr None
      | Some s \<Rightarrow> if s = [] then Inr None else then_e (py_float s) (\<lambda>x. Inr (Some x)))"

definition position_of_hash ::
    "(string \<Rightarrow> error + real) \<Rightarrow> (string \<times> string) list \<Rightarrow> error + stored_position" where
  "position_of_hash py_float d =
     then_e (float_or_zero py_float d ''lat'') (\<lambda>la.
     then_e (float_or_zero py_float d ''lon'') (\<lambda>lo.
     then_e (float_if_set py_float d ''speed'') (\<lambda>sp.
     then_e (float_or_zero py_float d ''timestamp'') (\<lambda>ts.
     then_e (float_if_set py_float d ''bearing'') (\<lambda>be.
       Inr \<lparr>sp_id = map_of d ''id'', sp_lat = la, sp_lon = lo,
            sp_route_id = map_of d ''route_id'', sp_speed = sp, sp_timestamp = ts,
            sp_bearing = be\<rparr>)))))"

definition get_bus_position ::
    "redis_storage \<Rightarrow> (string \<Rightarrow> error + real) \<Rightarrow> string \<Rightarrow> error + stored_position option" where
  "get_bus_position self py_float bid =
     (case redis self of
        None \<Rightarrow> Inr None
      | Some r \<Rightarrow>
          try_except
            (then_e (r_hgetall r (''bus:'' @ bid)) (\<lambda>d.
               if d \<noteq> [] then then_e (position_of_hash py_float d) (\<lambda>p. Inr (Some p))
               else Inr None))
            None)"

fun positions_loop ::
    "redis_client \<Rightarrow> (string \<Rightarrow> error + real) \<Rightarrow> string list \<Rightarrow> stored_position list
       \<Rightarrow> error + stored_position list" where
  "positions_loop r py_float [] buses = Inr buses"
| "positions_loop r py_float (key # rest) buses =
     then_e (r_hgetall r key) (\<lambda>d.
       if d \<noteq> []
       then then_e (position_of_hash py_float d) (\<lambda>p.
              positions_loop r py_float rest (buses @ [p]))
       else positions_loop r py_float rest buses)"

definition get_all_bus_positions ::
    "redis_storage \<Rightarrow> (string \<Rightarrow> error + real) \<Rightarrow> error + stored_position list" where
  "get_all_bus_positions self py_float =
     (case redis self of
        None \<Rightarrow> Inr []
      | Some r \<Rightarrow>
          try_except
            (then_e (r_keys r ''bus:*'') (\<lambda>ks.
               let position_keys = filter (\<lambda>key. \<not> endswith key '':history'') ks
               in positions_loop r py_float position_keys []))
            [])"

fun history_loop :: "(string \<Rightarrow> error + 'j) \<Rightarrow> string list \<Rightarrow> 'j list \<Rightarrow> error + 'j list" where
  "history_loop loads [] history = Inr history"
| "history_loop loads (entry # rest) history =
     (case loads entry of
        Inl JSONDecodeError \<Rightarrow> history_loop loads rest history
      | Inl e \<Rightarrow> Inl e
      | Inr position \<Rightarrow> history_loop loads rest (history @ [position]))"

definition get_bus_history ::
    "redis_storage \<Rightarrow> (string \<Rightarrow> error + 'j) \<Rightarrow> string \<Rightarrow> int \<Rightarrow> error + 'j list" where
  "get_bus_history self loads bid limit =
     (case redis self of
        None \<Rightarrow> Inr []
      | Some r \<Rightarrow>
          try_except
            (then_e (r_lrange r (''bus:'' @ bid @ '':history'') 0 (limit - 1)) (\<lambda>history_data.
               history_loop loads history_data []))
            [])"

definition store_anomaly_detection ::
    "redis_storage \<Rightarrow> string \<Rightarrow> (string \<times> string) list \<Rightarrow> error + unit" where
  "store_anomaly_detection self bid anomaly_data =
     (case redis self of
        None \<Rightarrow> Inr ()
      | Some r \<Rightarrow>
          try_except
            (let key = ''anomaly:'' @ bid
             in then_e (r_hset_mapping r key anomaly_data) (\<lambda>_. r_expire r key 3600))
            ())"

definition get_anomaly_detection ::
    "redis_storage \<Rightarrow> string \<Rightarrow> error + (string \<times> string) list option" where
  "get_anomaly_detection self bid =
     (case redis self of
        None \<Rightarrow> Inr None
      | Some r \<Rightarrow>
          (case r_hgetall r (''anomaly:'' @ bid) of
             Inl e \<Rightarrow> Inr None
           | Inr d \<Rightarrow> Inr (if d \<noteq> [] then Some d else None)))"

definition publish_bus_update ::
    "redis_storage \<Rightarrow> ('d \<Rightarrow> error + string) \<Rightarrow> 'd \<Rightarrow> error + unit" where
  "publish_bus_update self dumps bus_data =
     (case redis self of
        None \<Rightarrow> Inr ()
      | Some r \<Rightarrow>
          try_except
            (then_e (dumps bus_data) (\<lambda>message. r_publish r ''bus_updates'' message))
            ())"

definition subscribe_to_updates ::
    "redis_storage \<Rightarrow> error + (nat option \<times> redis_storage)" where
  "subscribe_to_updates self =
     (case redis self of
        None \<Rightarrow> Inr (None, self)
      | Some r \<Rightarrow>
          (case r_pubsub r of
             Inl e \<Rightarrow> Inr (None, self)
           | Inr p \<Rightarrow>
               (case r_subscribe r p ''bus_updates'' of
                  Inl e \<Rightarrow> Inr (None, self\<lparr>pubsub := Some p\<rparr>)
                | Inr _ \<Rightarrow> Inr (Some p, self\<lparr>pubsub := Some p\<rparr>))))"

definition store_route_cache ::
    "redis_storage \<Rightarrow> string \<Rightarrow> (string \<times> string) list \<Rightarrow> error + unit" where
  "store_route_cache self rid route_data =
     (case redis self of
        None \<Rightarrow> Inr ()
      | Some r \<Rightarrow>
          try_except
            (let key = ''route:'' @ rid
             in then_e (r_hset_mapping r key route_data) (\<lambda>_. r_expire r key 86400))
            ())"

definition get_route_cache ::
    "redis_storage \<Rightarrow> string \<Rightarrow> error + (string \<times> string) list option" where
  "get_route_cache self rid =
     (case redis self of
        None \<Rightarrow> Inr None
      | Some r \<Rightarrow>
          (case r_hgetall r (''route:'' @ rid) of
             Inl e \<Rightarrow> Inr None
           | Inr d \<Rightarrow> Inr (if d \<noteq> [] then Some d else None)))"

definition cleanup_expired_buses :: "redis_storage \<Rightarrow> error + unit" where
  "cleanup_expired_buses self = (case redis self of None \<Rightarrow> Inr () | Some r \<Rightarrow> Inr ())"

text \<open>A client none of whose calls gets through.\<close>

definition down_client :: redis_client where
  "down_client =
     \<lparr>r_ping = Inl RedisError,
      r_hset = (\<lambda>_ _ _. Inl RedisError),
      r_hset_mapping = (\<lambda>_ _. Inl RedisError),
      r_expire = (\<lambda>_ _. Inl RedisError),
      r_lpush = (\<lambda>_ _. Inl RedisError),
      r_ltrim = (\<lambda>_ _ _. Inl RedisError),
      r_hgetall = (\<lambda>_. Inl RedisError),
      r_keys = (\<lambda>_. Inl RedisError),
      r_lrange = (\<lambda>_ _ _. Inl RedisError),
      r_publish = (\<lambda>_ _. Inl RedisError),
      r_pubsub = Inl RedisError,
      r_subscribe = (\<lambda>_ _. Inl RedisError)\<rparr>"

section \<open>Example inputs\<close>

text \<open>A C library that rounds the exact value correctly, for the examples.\<close>

definition ideal_libm :: libm where
  "ideal_libm =
     \<lparr>l_sin = (\<lambda>x. rnd (sin x)), l_cos = (\<lambda>x. rnd (cos x)),
      l_asin = (\<lambda>x. rnd (arcsin x)), l_pow = (\<lambda>x y. rnd (\<bar>x\<bar> powr y))\<rparr>"

text \<open>A report of the simulator's bus \<open>WEST_001\<close>, and the application right after it was
  submitted once to the fresh detector.\<close>

definition example_bus :: bus_data where
  "example_bus =
     \<lparr>bus_id = ''WEST_001'', lat = 39.7392, lon = -104.9903, route_id = ''WEST'',
      speed = Some 30, timestamp = 1000, bearing = None, trip_id = None\<rparr>"

definition example_app :: app_state where
  "example_app =
     \<lparr>active_buses = [(''WEST_001'', example_bus)],
      detector = \<lparr>position_history = [''WEST_001'' \<mapsto> [entry_of example_bus]],
                  speed_history = [''WEST_001'' \<mapsto> [30]]\<rparr>\<rparr>"

text \<open>A report of bus \<open>B1\<close> at a fixed place with the given timestamp and speed; the
  detector after four such reports, ten seconds apart, with the given speeds; and the
  detector after two such reports of speed 30 with the given timestamps.\<close>

definition report_at :: "real \<Rightarrow> real \<Rightarrow> bus_data" where
  "report_at t v =
     \<lparr>bus_id = ''B1'', lat = 39.73, lon = -104.99, route_id = ''R1'',
      speed = Some v, timestamp = t, bearing = None, trip_id = None\<rparr>"

definition after_four :: "real \<Rightarrow> real \<Rightarrow> real \<Rightarrow> real \<Rightarrow> ghost_bus_detector" where
  "after_four v1 v2 v3 v4 =
     \<lparr>position_history =
        [''B1'' \<mapsto> [entry_of (report_at 0 v1), entry_of (report_at 10 v2),
                      entry_of (report_at 20 v3), entry_of (report_at 30 v4)]],
      speed_history = [''B1'' \<mapsto> [v1, v2, v3, v4]]\<rparr>"

definition after_two :: "real \<Rightarrow> real \<Rightarrow> ghost_bus_detector" where
  "after_two t1 t2 =
     \<lparr>position_history =
        [''B1'' \<mapsto> [entry_of (report_at t1 30), entry_of (report_at t2 30)]],
      speed_history = [''B1'' \<mapsto> [30, 30]]\<rparr>"

section \<open>Rounding at concrete values\<close>

lemma rnd_0 [simp]: "rnd 0 = 0"
  by (simp add: rnd_def)

lemma rnd_eval:
  assumes "2 ^ k \<le> \<bar>x\<bar>" and "\<bar>x\<bar> < 2 ^ (Suc k)" and "k \<le> 52"
  shows "rnd x = of_int (round_half_even (x * 2 ^ (52 - k))) / 2 ^ (52 - k)"
proof -
  have "(0::real) < 2 ^ k" by simp
  with assms(1) have pos: "0 < \<bar>x\<bar>" by linarith
  have "(2::real) powr (of_int (int k)) \<le> \<bar>x\<bar>" "\<bar>x\<bar> < (2::real) powr (of_int (int k + 1))"
    using assms(1,2) by (simp_all add: powr_realpow powr_add)
  then have fl: "\<lfloor>log 2 \<bar>x\<bar>\<rfloor> = int k"
    using floor_log_eq_powr_iff [of "\<bar>x\<bar>" 2 "int k"] pos by simp
  have e: "max (\<lfloor>log 2 \<bar>x\<bar>\<rfloor> - 52) (- 1074) = - int (52 - k)"
    using assms(3) by (simp add: fl)
  have p: "(2::real) powr of_int (- int (52 - k)) = 1 / 2 ^ (52 - k)"
    by (simp add: powr_minus powr_realpow inverse_eq_divide)
  from pos have "x \<noteq> 0" by auto
  then show ?thesis
    unfolding rnd_def e Let_def p by simp
qed

lemma rnd_eval_small:
  assumes "1 / 2 ^ (Suc j) \<le> \<bar>x\<bar>" and "\<bar>x\<bar> < 1 / 2 ^ j" and "j \<le> 1000"
  shows "rnd x = of_int (round_half_even (x * 2 ^ (53 + j))) / 2 ^ (53 + j)"
proof -
  have "(0::real) < 1 / 2 ^ (Suc j)" by simp
  with assms(1) have pos: "0 < \<bar>x\<bar>" by linarith
  have pw: "(2::real) powr (- real n) = 1 / 2 ^ n" for n
    using powr_minus [of 2 "real n"] powr_realpow [of 2 n] by (simp add: inverse_eq_divide)
  have c1: "real_of_int (- int (Suc j)) = - real (Suc j)"
    and c2: "real_of_int (- int (Suc j) + 1) = - real j" by simp_all
  have "(2::real) powr (of_int (- int (Suc j))) \<le> \<bar>x\<bar>"
    unfolding c1 pw using assms(1) .
  moreover have "\<bar>x\<bar> < (2::real) powr (of_int (- int (Suc j) + 1))"
    unfolding c2 pw using assms(2) .
  ultimately have fl: "\<lfloor>log 2 \<bar>x\<bar>\<rfloor> = - int (Suc j)"
    using floor_log_eq_powr_iff [of "\<bar>x\<bar>" 2 "- int (Suc j)"] pos by simp
  have e: "max (\<lfloor>log 2 \<bar>x\<bar>\<rfloor> - 52) (- 1074) = - int (53 + j)"
    using assms(3) by (simp add: fl)
  have "real_of_int (- int (53 + j)) = - real (53 + j)" by simp
  then have p: "(2::real) powr of_int (- int (53 + j)) = 1 / 2 ^ (53 + j)"
    using pw [of "53 + j"] by simp
  from pos have "x \<noteq> 0" by auto
  then show ?thesis
    unfolding rnd_def e Let_def p by simp
qed

lemma rnd_int:
  assumes "2 ^ k \<le> \<bar>m\<bar>" and "\<bar>m\<bar> < 2 ^ (Suc k)" and "k \<le> 52"
  shows "rnd (of_int m) = of_int m"
proof -
  have a: "(2::real) ^ k \<le> \<bar>of_int m\<bar>"
    using assms(1) by (metis of_int_abs of_int_le_iff of_int_numeral of_int_power)
  have b: "\<bar>of_int m :: real\<bar> < 2 ^ (Suc k)"
    using assms(2) by (metis of_int_abs of_int_less_iff of_int_numeral of_int_power)
  have "round_half_even (of_int m * 2 ^ (52 - k)) = m * 2 ^ (52 - k)"
  proof -
    have "(of_int m :: real) * 2 ^ (52 - k) = of_int (m * 2 ^ (52 - k))" by simp
    then show ?thesis unfolding round_half_even_def Let_def
      by (simp only: floor_of_int) simp
  qed
  then show ?thesis using rnd_eval [OF a b assms(3)] by simp
qed

lemma rnd_values:
  "rnd 1 = 1" "rnd 20 = 20" "rnd 40 = 40" "rnd 60 = 60" "rnd 61 = 61"
  "rnd 119 = 119" "rnd 120 = 120" "rnd 121 = 121" "rnd 300 = 300"
  using rnd_int [of 0 1] rnd_int [of 4 20] rnd_int [of 5 40] rnd_int [of 5 60]
    rnd_int [of 5 61] rnd_int [of 6 119] rnd_int [of 6 120] rnd_int [of 6 121]
    rnd_int [of 8 300]
  by simp_all

lemma rnd_120_and_a_bit: "rnd (120 + 1 / 2 ^ 60) = 120"
  using rnd_eval [of 6 "120 + 1 / 2 ^ 60"]
  by (simp add: round_half_even_def Let_def)

lemma rnd_60_and_a_bit: "rnd (60 + 1 / 2 ^ 60) = 60"
  using rnd_eval [of 5 "60 + 1 / 2 ^ 60"]
  by (simp add: round_half_even_def Let_def)

lemma rnd_three_tenths: "rnd (3 / 10) = 5404319552844595 / 2 ^ 54"
  using rnd_eval_small [of 1 "3 / 10"]
  by (simp add: round_half_even_def Let_def)

lemma rnd_141_fifths: "rnd (141 / 5) = 7937594343240499 / 2 ^ 48"
  using rnd_eval [of 4 "141 / 5"]
  by (simp add: round_half_even_def Let_def)

lemma mean_28_times_3: "61 < rnd (7937594343240499 / 2 ^ 48 * 3)"
  using rnd_eval [of 6 "7937594343240499 / 2 ^ 48 * 3"]
  by (simp add: round_half_even_def Let_def)

lemma mean_28_times_03: "rnd (7937594343240499 / 2 ^ 48 * (5404319552844595 / 2 ^ 54)) < 61"
  using rnd_eval [of 3 "7937594343240499 / 2 ^ 48 * (5404319552844595 / 2 ^ 54)"]
  by (simp add: round_half_even_def Let_def)

lemma mean_20_times_03: "rnd (20 * (5404319552844595 / 2 ^ 54)) < 60"
  using rnd_eval [of 2 "20 * (5404319552844595 / 2 ^ 54)"]
  by (simp add: round_half_even_def Let_def)

lemma haversine_same_point: "haversine_distance L la lo la lo = Inr 0"
  by (simp add: haversine_distance_def haversine_a_def Let_def fsub_def fadd_def fmul_def
      fdiv_def radians_def math_sin_def float_pow_def math_sqrt_def math_asin_def)

section \<open>The haversine distance at a nearly antipodal pair\<close>

text \<open>
  For the in-range points (59.049109252169444, -96.05930851502843) and
  (-59.04910926231661, 83.94069155420027) the C library returns
  \<open>sin(dlat/2)**2 = 0x1.78926fe7743abp-1\<close>, the cosines \<open>0x1.0752bf7d2d963p-1\<close> and
  \<open>0x1.0752bf7bdf975p-1\<close> of the two latitudes, and \<open>sin(dlon/2)**2 = 1\<close>. The lemmas below
  carry out the arithmetic of \<open>_haversine_distance\<close> that follows, in double precision.
\<close>

lemma sqrt_just_above_one: "rnd (sqrt (1 + 1 / 2 ^ 51)) = 1 + 1 / 2 ^ 52"
proof -
  let ?x = "1 + 1 / 2 ^ 51 :: real"
  let ?y = "sqrt ?x * 2 ^ 52"
  have lo: "2 ^ 52 + 1 / 2 < ?y"
  proof -
    have "((2 ^ 52 + 1 / 2) / 2 ^ 52)\<^sup>2 < ?x" by (simp add: power2_eq_square)
    then have "(2 ^ 52 + 1 / 2) / 2 ^ 52 < sqrt ?x" by (rule real_less_rsqrt)
    then show ?thesis by (simp add: field_simps)
  qed
  have hi: "?y < 2 ^ 52 + 1"
  proof -
    have "?x < ((2 ^ 52 + 1) / 2 ^ 52)\<^sup>2" by (simp add: power2_eq_square)
    then have "sqrt ?x < (2 ^ 52 + 1) / 2 ^ 52" by (intro real_less_lsqrt) simp_all
    then show ?thesis by (simp add: field_simps)
  qed
  have fl: "\<lfloor>?y\<rfloor> = 2 ^ 52"
    using lo hi by (intro floor_unique) simp_all
  have r: "round_half_even ?y = 2 ^ 52 + 1"
    unfolding round_half_even_def Let_def fl using lo by simp
  have b1: "(2::real) ^ 0 \<le> \<bar>sqrt ?x\<bar>" by simp
  have "sqrt ?x < sqrt 4" by (intro real_sqrt_less_mono) simp
  then have b2: "\<bar>sqrt ?x\<bar> < 2 ^ Suc 0" by simp
  from rnd_eval [OF b1 b2] r show ?thesis by simp
qed

lemma near_antipodal_products:
  "fmul (4632431329204579 / 2 ^ 53) (4632431327836533 / 2 ^ 53) = 297809277425547 / 2 ^ 50"
  "fmul (297809277425547 / 2 ^ 50) 1 = 297809277425547 / 2 ^ 50"
  using rnd_eval_small [of 1 "4632431329204579 / 2 ^ 53 * (4632431327836533 / 2 ^ 53)"]
    rnd_eval_small [of 1 "297809277425547 / 2 ^ 50"]
  by (simp_all add: fmul_def round_half_even_def Let_def)

lemma near_antipodal_sum:
  "fadd (6624725035336619 / 2 ^ 53) (297809277425547 / 2 ^ 50) = 1 + 1 / 2 ^ 51"
  using rnd_eval [of 0 "6624725035336619 / 2 ^ 53 + 297809277425547 / 2 ^ 50"]
  by (simp add: fadd_def round_half_even_def Let_def)

lemma haversine_raises_above_one:
  "haversine_a L lat1 lon1 lat2 lon2 = 1 + 1 / 2 ^ 51 \<Longrightarrow>
   haversine_distance L lat1 lon1 lat2 lon2 = Inl ValueError"
  unfolding haversine_distance_def math_sqrt_def
  by (simp only: sqrt_just_above_one) (simp add: math_asin_def)

text \<open>
  Claim C7 at that pair: from the values above the sum \<open>a\<close> comes out as \<open>1 + 2\<^sup>-\<^sup>5\<^sup>1\<close>,
  \<open>math.sqrt\<close> rounds its root to \<open>1 + 2\<^sup>-\<^sup>5\<^sup>2\<close>, which is above 1, and \<open>math.asin\<close> raises
  \<open>ValueError\<close>: the function is not total on coordinate pairs.
\<close>

theorem haversine_raises_at_near_antipodal_pair:
  "fadd (6624725035336619 / 2 ^ 53)
        (fmul (fmul (4632431329204579 / 2 ^ 53) (4632431327836533 / 2 ^ 53)) 1)
     = 1 + 1 / 2 ^ 51
   \<and> math_sqrt (1 + 1 / 2 ^ 51) = Inr (1 + 1 / 2 ^ 52)
   \<and> math_asin L (1 + 1 / 2 ^ 52) = Inl ValueError"
proof -
  have "fadd (6624725035336619 / 2 ^ 53)
        (fmul (fmul (4632431329204579 / 2 ^ 53) (4632431327836533 / 2 ^ 53)) 1)
     = 1 + 1 / 2 ^ 51"
    unfolding near_antipodal_products near_antipodal_sum by (rule refl)
  moreover have "math_sqrt (1 + 1 / 2 ^ 51) = Inr (1 + 1 / 2 ^ 52)"
    unfolding math_sqrt_def by (simp only: sqrt_just_above_one) simp
  moreover have "math_asin L (1 + 1 / 2 ^ 52) = Inl ValueError"
    by (simp add: math_asin_def)
  ultimately show ?thesis by (intro conjI)
qed

section \<open>Properties of the rules\<close>

lemma sum_legs_short: "length ps \<le> 1 \<Longrightarrow> sum_legs L acc ps = Inr acc"
  by (induction L acc ps rule: sum_legs.induct) simp_all

lemma distance_loop_sum_legs:
  "1 \<le> i \<Longrightarrow> distance_loop L ps i acc = sum_legs L acc (drop (i - 1) ps)"
proof (induction L ps i acc rule: distance_loop.induct)
  case (1 L ps i acc)
  show ?case
  proof (cases "i < length ps")
    case True
    from True "1.prems" have "i - 1 < length ps" and s: "Suc (i - 1) = i" by simp_all
    then have d1: "drop (i - 1) ps = ps ! (i - 1) # drop i ps"
      using Cons_nth_drop_Suc [of "i - 1" ps] by simp
    from True have d2: "drop i ps = ps ! i # drop (Suc i) ps"
      by (simp add: Cons_nth_drop_Suc)
    show ?thesis
    proof (cases "haversine_distance L (e_lat (ps ! (i - 1))) (e_lon (ps ! (i - 1)))
                    (e_lat (ps ! i)) (e_lon (ps ! i))")
      case (Inl e)
      have "distance_loop L ps i acc = Inl e"
        using Inl True by (subst distance_loop.simps) simp
      moreover have "sum_legs L acc (ps ! (i - 1) # ps ! i # drop (Suc i) ps) = Inl e"
        using Inl by simp
      ultimately show ?thesis by (simp only: d1) (simp only: d2)
    next
      case (Inr m)
      have "distance_loop L ps i acc = distance_loop L ps (i + 1) (fadd acc m)"
        using Inr True by (subst distance_loop.simps) simp
      also have "\<dots> = sum_legs L (fadd acc m) (drop i ps)"
        using "1.IH" [OF True Inr] by simp
      also have "\<dots> = sum_legs L acc (ps ! (i - 1) # ps ! i # drop (Suc i) ps)"
        using Inr by (simp only: d2) simp
      finally show ?thesis by (simp only: d1) (simp only: d2)
    qed
  next
    case False
    then have "length (drop (i - 1) ps) \<le> 1" by simp
    then have "sum_legs L acc (drop (i - 1) ps) = Inr acc"
      by (rule sum_legs_short)
    with False show ?thesis by (subst distance_loop.simps) simp
  qed
qed

lemma is_stationary_sum_legs:
  "is_stationary_at_non_stop L self bid d =
     (case position_history self bid of
        None \<Rightarrow> Inr False
      | Some h \<Rightarrow>
          if length h < 3 then Inr False
          else (case sum_legs L 0 (drop (length h - 5) h) of
                  Inl e \<Rightarrow> Inl e
                | Inr t \<Rightarrow>
                    Inr (t < 20
                         \<and> fsub (e_timestamp (last h))
                                (e_timestamp (hd (drop (length h - 5) h))) > 60)))"
proof (cases "position_history self bid")
  case None
  then show ?thesis by (simp add: is_stationary_at_non_stop_def)
next
  case (Some h)
  show ?thesis
  proof (cases "length h < 3")
    case True
    with Some show ?thesis by (simp add: is_stationary_at_non_stop_def)
  next
    case False
    define r where "r = drop (length h - 5) h"
    from False have len: "3 \<le> length r" by (simp add: r_def)
    then have ne: "r \<noteq> []" by auto
    have sl: "slice_last 5 h = r" by (simp add: slice_last_def r_def)
    have "last r = last h" using False by (simp add: r_def)
    then have l: "r ! (length r - Suc 0) = last h"
      using ne by (simp add: last_conv_nth)
    have f: "r ! 0 = hd r" using ne by (simp add: hd_conv_nth)
    have dl: "distance_loop L r (Suc 0) 0 = sum_legs L 0 r"
      using distance_loop_sum_legs [of 1 L r 0] by simp
    have "is_stationary_at_non_stop L self bid d =
          (case sum_legs L 0 r of
             Inl e \<Rightarrow> Inl e
           | Inr t \<Rightarrow>
               Inr (t < 20 \<and> fsub (e_timestamp (last h)) (e_timestamp (hd r)) > 60))"
      using Some False len
      by (simp add: is_stationary_at_non_stop_def sl Let_def dl l f stationary_threshold_def
          split: sum.splits)
    then show ?thesis using Some False unfolding r_def by simp
  qed
qed

lemma detect_speed_anomaly_None: "detect_speed_anomaly self bid None = Inr (None, self)"
  by (simp add: detect_speed_anomaly_def)

lemma detect_speed_anomaly_unfold:
  "detect_speed_anomaly self bid (Some v) =
     (let h1 = (case speed_history self bid of None \<Rightarrow> [] | Some h \<Rightarrow> h) @ [v];
          w = drop (length h1 - 60) h1;
          avg = rnd (sum_list w / real (length w))
      in Inr (if length w < 5 then None
              else if avg > 0 \<and> v > fmul avg 3 then Some ''speed_spike''
              else if avg > 10 \<and> v < fmul avg (rnd 0.3) then Some ''speed_drop''
              else None,
              self\<lparr>speed_history := (speed_history self)(bid \<mapsto> w)\<rparr>))"
proof -
  have trim: "(if length h1 > max_history_length
               then slice_last max_history_length h1 else h1) = drop (length h1 - 60) h1"
    for h1 :: "real list"
    by (simp add: slice_last_def max_history_length_def)
  have m: "length w < 5 \<or> statistics_mean w = Inr (rnd (sum_list w / real (length w)))"
    for w :: "real list"
    by (auto simp: statistics_mean_def)
  show ?thesis
    unfolding detect_speed_anomaly_def trim Let_def option.case
    using m [of "drop (length ((case speed_history self bid of None \<Rightarrow> [] | Some h \<Rightarrow> h) @ [v]) - 60)
                  ((case speed_history self bid of None \<Rightarrow> [] | Some h \<Rightarrow> h) @ [v])"]
    by (auto simp del: length_drop length_append drop_append)
qed

lemma store_position_history_window:
  "position_history (store_position_history self bid d) =
     (position_history self)(bid \<mapsto>
        (let h1 = (case position_history self bid of None \<Rightarrow> [] | Some h \<Rightarrow> h) @ [entry_of d]
         in drop (length h1 - 60) h1))"
  by (auto simp: store_position_history_def Let_def slice_last_def max_history_length_def fun_eq_iff)

lemma store_position_history_speed:
  "speed_history (store_position_history self bid d) = speed_history self"
  by (simp add: store_position_history_def Let_def)

lemma detect_speed_anomaly_returns:
  "\<exists>sa self2. detect_speed_anomaly self bid sp = Inr (sa, self2)
      \<and> (sa = None \<or> sa = Some ''speed_spike'' \<or> sa = Some ''speed_drop'')
      \<and> position_history self2 = position_history self
      \<and> (\<forall>other. other \<noteq> bid \<longrightarrow> speed_history self2 other = speed_history self other)"
proof (cases sp)
  case None
  then show ?thesis by (simp add: detect_speed_anomaly_None)
next
  case (Some v)
  show ?thesis unfolding Some detect_speed_anomaly_unfold Let_def by simp
qed

lemma detect_anomalies_raises:
  "is_stationary_at_non_stop L (store_position_history self (bus_id d) d) (bus_id d) d = Inl e
   \<Longrightarrow> detect_anomalies L now self d = Inl e"
  by (simp add: detect_anomalies_def Let_def)

lemma detect_anomalies_returns:
  assumes "is_stationary_at_non_stop L (store_position_history self (bus_id d) d) (bus_id d) d
           = Inr st"
    and "detect_speed_anomaly (store_position_history self (bus_id d) d) (bus_id d) (speed d)
           = Inr (sa, self2)"
  shows "detect_anomalies L now self d =
        Inr (let tags = (if fsub now (timestamp d) > 120 then [''stale_data''] else [])
                        @ (if st then [''stationary_non_stop''] else [])
                        @ (case sa of None \<Rightarrow> [] | Some t \<Rightarrow> [t])
                        @ (if is_off_route d then [''off_route''] else [])
             in ((tags \<noteq> [], tags, calculate_severity tags), self2))"
  using assms
  by (auto simp: detect_anomalies_def Let_def stale_threshold_def split: option.splits)

lemma detect_anomalies_Inr_iff:
  "(\<exists>r. detect_anomalies L now self d = Inr r)
   \<longleftrightarrow> (\<exists>st. is_stationary_at_non_stop L (store_position_history self (bus_id d) d)
               (bus_id d) d = Inr st)"
proof (cases "is_stationary_at_non_stop L (store_position_history self (bus_id d) d) (bus_id d) d")
  case (Inl e)
  then show ?thesis using detect_anomalies_raises [OF Inl, of now] by simp
next
  case (Inr st)
  obtain sa self2 where
    "detect_speed_anomaly (store_position_history self (bus_id d) d) (bus_id d) (speed d)
       = Inr (sa, self2)"
    using detect_speed_anomaly_returns by blast
  from detect_anomalies_returns [OF Inr this, of now] Inr show ?thesis by simp
qed

lemma detect_anomalies_InrD:
  assumes "detect_anomalies L now self d = Inr r"
  obtains st sa self2 where
    "is_stationary_at_non_stop L (store_position_history self (bus_id d) d) (bus_id d) d = Inr st"
    "detect_speed_anomaly (store_position_history self (bus_id d) d) (bus_id d) (speed d)
       = Inr (sa, self2)"
    "sa = None \<or> sa = Some ''speed_spike'' \<or> sa = Some ''speed_drop''"
    "position_history self2 = position_history (store_position_history self (bus_id d) d)"
    "r = (let tags = (if fsub now (timestamp d) > 120 then [''stale_data''] else [])
                        @ (if st then [''stationary_non_stop''] else [])
                        @ (case sa of None \<Rightarrow> [] | Some t \<Rightarrow> [t])
                        @ (if is_off_route d then [''off_route''] else [])
             in ((tags \<noteq> [], tags, calculate_severity tags), self2))"
proof -
  let ?s1 = "store_position_history self (bus_id d) d"
  obtain st where st: "is_stationary_at_non_stop L ?s1 (bus_id d) d = Inr st"
    using assms detect_anomalies_Inr_iff [of L now self d] by blast
  obtain sa self2 where sa: "detect_speed_anomaly ?s1 (bus_id d) (speed d) = Inr (sa, self2)"
    and tag: "sa = None \<or> sa = Some ''speed_spike'' \<or> sa = Some ''speed_drop''"
    and ph: "position_history self2 = position_history ?s1"
    using detect_speed_anomaly_returns [of ?s1 "bus_id d" "speed d"] by blast
  from detect_anomalies_returns [OF st sa, of now] assms
  have "r = (let tags = (if fsub now (timestamp d) > 120 then [''stale_data''] else [])
                        @ (if st then [''stationary_non_stop''] else [])
                        @ (case sa of None \<Rightarrow> [] | Some t \<Rightarrow> [t])
                        @ (if is_off_route d then [''off_route''] else [])
             in ((tags \<noteq> [], tags, calculate_severity tags), self2))"
    by simp
  with st sa tag ph show ?thesis by (rule that)
qed

lemma spec_distance_same: "spec_distance a b a b = 0"
  by (simp add: spec_distance_def spec_haversine_a_def)

lemma sum_legs_same_place:
  assumes "\<forall>p \<in> set ps. e_lat p = la \<and> e_lon p = lo"
  shows "sum_legs L 0 ps = Inr 0"
  using assms
proof (induction ps rule: induct_list012)
  case 1
  show ?case by simp
next
  case (2 p)
  show ?case by simp
next
  case (3 p q rest)
  from "3.prems" have pq: "e_lat p = la" "e_lon p = lo" "e_lat q = la" "e_lon q = lo"
    by simp_all
  have f: "fadd 0 0 = 0" by (simp add: fadd_def)
  from "3.prems" have "sum_legs L 0 (q # rest) = Inr 0"
    by (intro "3.IH"(2)) simp
  then show ?case
    by (simp only: sum_legs.simps pq haversine_same_point sum.case f)
qed

lemma detect_anomalies_frame:
  assumes "detect_anomalies L now self d = Inr r" and "other \<noteq> bus_id d"
  shows "position_history (detector_of r) other = position_history self other
         \<and> speed_history (detector_of r) other = speed_history self other"
proof -
  let ?s1 = "store_position_history self (bus_id d) d"
  from assms(1) obtain st sa self2 where
    sa: "detect_speed_anomaly ?s1 (bus_id d) (speed d) = Inr (sa, self2)"
    and r: "r = (let tags = (if fsub now (timestamp d) > 120 then [''stale_data''] else [])
                        @ (if st then [''stationary_non_stop''] else [])
                        @ (case sa of None \<Rightarrow> [] | Some t \<Rightarrow> [t])
                        @ (if is_off_route d then [''off_route''] else [])
             in ((tags \<noteq> [], tags, calculate_severity tags), self2))"
    by (rule detect_anomalies_InrD)
  from r have d: "detector_of r = self2" by (simp add: detector_of_def Let_def)
  from detect_speed_anomaly_returns [of ?s1 "bus_id d" "speed d"] sa assms(2)
  have "position_history self2 = position_history ?s1"
    and "speed_history self2 other = speed_history ?s1 other" by auto
  with assms(2) show ?thesis
    by (simp add: d store_position_history_window store_position_history_speed)
qed

text \<open>
  Claim C10. Whenever \<open>detect_anomalies\<close> returns a triple, its ghost flag holds exactly
  when the severity is not info: every tag it can produce is in the critical or the
  warning set, so the last branch of \<open>_calculate_severity\<close> is not reached with a non-empty
  list.
\<close>

theorem ghost_iff_severity_not_info:
  assumes "detect_anomalies L now self d = Inr r"
  shows "(ghost_of r \<longleftrightarrow> severity_of r \<noteq> ''info'')
       \<and> (ghost_of r \<longleftrightarrow> tags_of r \<noteq> [])
       \<and> set (tags_of r) \<subseteq> critical_anomalies \<union> warning_anomalies"
proof -
  from assms obtain st sa self2 where
    tag: "sa = None \<or> sa = Some ''speed_spike'' \<or> sa = Some ''speed_drop''"
    and r: "r = (let tags = (if fsub now (timestamp d) > 120 then [''stale_data''] else [])
                        @ (if st then [''stationary_non_stop''] else [])
                        @ (case sa of None \<Rightarrow> [] | Some t \<Rightarrow> [t])
                        @ (if is_off_route d then [''off_route''] else [])
             in ((tags \<noteq> [], tags, calculate_severity tags), self2))"
    by (rule detect_anomalies_InrD)
  from tag show ?thesis unfolding r
    by (auto simp: ghost_of_def severity_of_def tags_of_def Let_def calculate_severity_def
        critical_anomalies_def warning_anomalies_def)
qed

lemma fresh_report:
  "detect_anomalies L now init_detector (example_bus\<lparr>timestamp := t\<rparr>)
     = Inr (let tags = (if fsub now t > 120 then [''stale_data''] else [])
            in ((tags \<noteq> [], tags, calculate_severity tags),
                \<lparr>position_history = [''WEST_001'' \<mapsto> [entry_of (example_bus\<lparr>timestamp := t\<rparr>)]],
                 speed_history = [''WEST_001'' \<mapsto> [30]]\<rparr>))"
  by (simp add: detect_anomalies_def Let_def store_position_history_def init_detector_def
      is_stationary_at_non_stop_def detect_speed_anomaly_def example_bus_def
      max_history_length_def stale_threshold_def is_off_route_def calculate_severity_def)

lemma fresh_report_example:
  "detect_anomalies L now init_detector example_bus
     = Inr (let tags = (if fsub now 1000 > 120 then [''stale_data''] else [])
            in ((tags \<noteq> [], tags, calculate_severity tags), detector example_app))"
  by (simp add: detect_anomalies_def Let_def store_position_history_def init_detector_def
      is_stationary_at_non_stop_def detect_speed_anomaly_def example_bus_def example_app_def
      max_history_length_def stale_threshold_def is_off_route_def calculate_severity_def)

lemma fsub_values:
  "fsub 1000 1000 = 0" "fsub 1001 1000 = 1" "fsub 1300 1000 = 300"
  "fsub 1121 1000 = 121" "fsub 1119 1000 = 119" "fsub 1120 1000 = 120"
  "fsub 120 (- (1 / 2 ^ 60)) = 120" "fsub 60 (- (1 / 2 ^ 60)) = 60"
  "fsub 40 0 = 40" "fsub 40 40 = 0" "fsub 61 0 = 61" "fsub 61 61 = 0"
  "fsub 60 0 = 60" "fsub 60 60 = 0"
  using rnd_values rnd_120_and_a_bit rnd_60_and_a_bit by (simp_all add: fsub_def)

theorem ghost_iff_severity_not_info_witness:
  "detect_anomalies ideal_libm 1300 init_detector example_bus
     = Inr ((True, [''stale_data''], ''critical''), detector example_app)
   \<and> (ghost_of ((True, [''stale_data''], ''critical''), detector example_app)
        \<longleftrightarrow> severity_of ((True, [''stale_data''], ''critical''), detector example_app)
            \<noteq> ''info'')
   \<and> detect_anomalies ideal_libm 1000 init_detector example_bus
     = Inr ((False, [], ''info''), detector example_app)
   \<and> (ghost_of ((False, [], ''info''), detector example_app)
        \<longleftrightarrow> severity_of ((False, [], ''info''), detector example_app) \<noteq> ''info'')"
proof -
  have a: "detect_anomalies ideal_libm 1300 init_detector example_bus
     = Inr ((True, [''stale_data''], ''critical''), detector example_app)"
    unfolding fresh_report_example fsub_values
    by (simp add: calculate_severity_def critical_anomalies_def)
  have b: "detect_anomalies ideal_libm 1000 init_detector example_bus
     = Inr ((False, [], ''info''), detector example_app)"
    unfolding fresh_report_example fsub_values
    by (simp add: calculate_severity_def)
  from ghost_iff_severity_not_info [OF a] ghost_iff_severity_not_info [OF b] a b
  show ?thesis by simp
qed

text \<open>
  Claim C3 as stated fails: with the clock at 120 and a timestamp of \<open>-2\<^sup>-\<^sup>6\<^sup>0\<close> the report
  is older than 120 seconds, but the double-precision difference is exactly 120 and the
  code gives no tag.
\<close>

theorem stale_exact_difference_counterexample:
  "120 - timestamp (example_bus\<lparr>timestamp := - (1 / 2 ^ 60)\<rparr>) > 120
   \<and> map_sum id fst
        (detect_anomalies ideal_libm 120 init_detector
           (example_bus\<lparr>timestamp := - (1 / 2 ^ 60)\<rparr>))
     = Inr (False, [], ''info'')"
proof -
  have "map_sum id fst
        (detect_anomalies ideal_libm 120 init_detector
           (example_bus\<lparr>timestamp := - (1 / 2 ^ 60)\<rparr>))
     = Inr (False, [], ''info'')"
    unfolding fresh_report fsub_values by (simp add: calculate_severity_def)
  then show ?thesis by simp
qed

text \<open>
  Claim C3, amended. Whenever \<open>detect_anomalies\<close> returns, the tag \<open>stale_data\<close> is among the
  tags exactly when the difference of the captured time and the report's timestamp, as
  the float subtraction rounds it, exceeds 120. A report exactly 121 seconds old has the
  tag, one exactly 119 or exactly 120 seconds old does not.
\<close>

theorem stale_data_iff_float_difference:
  assumes "detect_anomalies L now self d = Inr r"
  shows "(''stale_data'' \<in> set (tags_of r) \<longleftrightarrow> fsub now (timestamp d) > 120)
       \<and> (now - timestamp d = 121 \<longrightarrow> ''stale_data'' \<in> set (tags_of r))
       \<and> (now - timestamp d = 119 \<longrightarrow> ''stale_data'' \<notin> set (tags_of r))
       \<and> (now - timestamp d = 120 \<longrightarrow> ''stale_data'' \<notin> set (tags_of r))"
proof -
  from assms obtain st sa self2 where
    tag: "sa = None \<or> sa = Some ''speed_spike'' \<or> sa = Some ''speed_drop''"
    and r: "r = (let tags = (if fsub now (timestamp d) > 120 then [''stale_data''] else [])
                        @ (if st then [''stationary_non_stop''] else [])
                        @ (case sa of None \<Rightarrow> [] | Some t \<Rightarrow> [t])
                        @ (if is_off_route d then [''off_route''] else [])
             in ((tags \<noteq> [], tags, calculate_severity tags), self2))"
    by (rule detect_anomalies_InrD)
  from tag have main: "''stale_data'' \<in> set (tags_of r) \<longleftrightarrow> fsub now (timestamp d) > 120"
    unfolding r by (auto simp: tags_of_def Let_def)
  show ?thesis unfolding main by (simp add: fsub_def rnd_values)
qed

theorem stale_data_iff_float_difference_witness:
  "detect_anomalies ideal_libm 1121 init_detector example_bus
     = Inr ((True, [''stale_data''], ''critical''), detector example_app)
   \<and> 1121 - timestamp example_bus = 121
   \<and> ''stale_data'' \<in> set (tags_of ((True, [''stale_data''], ''critical''), detector example_app))
   \<and> detect_anomalies ideal_libm 1119 init_detector example_bus
     = Inr ((False, [], ''info''), detector example_app)
   \<and> 1119 - timestamp example_bus = 119
   \<and> detect_anomalies ideal_libm 1120 init_detector example_bus
     = Inr ((False, [], ''info''), detector example_app)
   \<and> 1120 - timestamp example_bus = 120
   \<and> ''stale_data'' \<notin> set (tags_of ((False, [], ''info''), detector example_app))"
proof -
  have a: "detect_anomalies ideal_libm 1121 init_detector example_bus
     = Inr ((True, [''stale_data''], ''critical''), detector example_app)"
    unfolding fresh_report_example fsub_values
    by (simp add: calculate_severity_def critical_anomalies_def)
  have b: "detect_anomalies ideal_libm 1119 init_detector example_bus
     = Inr ((False, [], ''info''), detector example_app)"
    unfolding fresh_report_example fsub_values
    by (simp add: calculate_severity_def)
  have c: "detect_anomalies ideal_libm 1120 init_detector example_bus
     = Inr ((False, [], ''info''), detector example_app)"
    unfolding fresh_report_example fsub_values
    by (simp add: calculate_severity_def)
  have t: "timestamp example_bus = 1000" by (simp add: example_bus_def)
  from stale_data_iff_float_difference [OF a] stale_data_iff_float_difference [OF b]
    stale_data_iff_float_difference [OF c] a b c
  show ?thesis by (simp add: t fsub_values)
qed

text \<open>
  Claim C6. \<open>_calculate_severity\<close> is the classifier of the specification on the set of the
  tags: info for no tag, critical first for \<open>stale_data\<close> or \<open>off_route\<close>, then warning for
  \<open>stationary_non_stop\<close>, \<open>speed_spike\<close> or \<open>speed_drop\<close>, info otherwise; in particular
  on the three tag sets the specification names.
\<close>

theorem calculate_severity_classifies:
  "calculate_severity tags = spec_classify (set tags)
   \<and> calculate_severity [''stale_data''] = ''critical''
   \<and> calculate_severity [''speed_spike''] = ''warning''
   \<and> calculate_severity [] = ''info''"
proof -
  have c: "list_ex (\<lambda>a. a \<in> critical_anomalies) tags
           \<longleftrightarrow> set tags \<inter> {''stale_data'', ''off_route''} \<noteq> {}"
    unfolding list_ex_iff critical_anomalies_def by blast
  have w: "list_ex (\<lambda>a. a \<in> warning_anomalies) tags
           \<longleftrightarrow> set tags \<inter> {''stationary_non_stop'', ''speed_spike'', ''speed_drop''} \<noteq> {}"
    unfolding list_ex_iff warning_anomalies_def by blast
  have "calculate_severity tags = spec_classify (set tags)"
    unfolding calculate_severity_def spec_classify_def c w by simp
  moreover have "calculate_severity [''stale_data''] = ''critical''"
    by (simp add: calculate_severity_def critical_anomalies_def)
  moreover have "calculate_severity [''speed_spike''] = ''warning''"
    by (simp add: calculate_severity_def critical_anomalies_def warning_anomalies_def)
  moreover have "calculate_severity [] = ''info''"
    by (simp add: calculate_severity_def)
  ultimately show ?thesis by simp
qed

text \<open>
  Claim C5, amended. Whenever \<open>detect_anomalies\<close> returns, with \<open>w\<close> the vehicle's window
  after the report has been recorded, the tag \<open>stationary_non_stop\<close> is produced exactly
  when \<open>w\<close> has at least 3 samples, the distances of the consecutive pairs among its last 5
  samples, computed and summed in double precision as the code does, stay below 20, and
  the float difference of the last and the first of those timestamps exceeds 60. With
  fewer than 3 samples the tag is never produced. No stop enters the condition.
\<close>

theorem stationary_iff_float_path_and_span:
  assumes "detect_anomalies L now self d = Inr r"
  shows "\<exists>w. position_history (detector_of r) (bus_id d) = Some w
          \<and> w = (let h1 = (case position_history self (bus_id d) of None \<Rightarrow> [] | Some h \<Rightarrow> h)
                           @ [entry_of d]
                 in drop (length h1 - 60) h1)
          \<and> (''stationary_non_stop'' \<in> set (tags_of r)
               \<longleftrightarrow> 3 \<le> length w
                   \<and> (\<exists>t. sum_legs L 0 (drop (length w - 5) w) = Inr t \<and> t < 20)
                   \<and> fsub (e_timestamp (last w))
                          (e_timestamp (hd (drop (length w - 5) w))) > 60)
          \<and> (length w < 3 \<longrightarrow> ''stationary_non_stop'' \<notin> set (tags_of r))"
proof -
  let ?s1 = "store_position_history self (bus_id d) d"
  define w where "w = (let h1 = (case position_history self (bus_id d) of None \<Rightarrow> [] | Some h \<Rightarrow> h)
                           @ [entry_of d]
                 in drop (length h1 - 60) h1)"
  from assms obtain st sa self2 where
    st: "is_stationary_at_non_stop L ?s1 (bus_id d) d = Inr st"
    and tag: "sa = None \<or> sa = Some ''speed_spike'' \<or> sa = Some ''speed_drop''"
    and ph: "position_history self2 = position_history ?s1"
    and r: "r = (let tags = (if fsub now (timestamp d) > 120 then [''stale_data''] else [])
                        @ (if st then [''stationary_non_stop''] else [])
                        @ (case sa of None \<Rightarrow> [] | Some t \<Rightarrow> [t])
                        @ (if is_off_route d then [''off_route''] else [])
             in ((tags \<noteq> [], tags, calculate_severity tags), self2))"
    by (rule detect_anomalies_InrD)
  have win: "position_history ?s1 (bus_id d) = Some w"
    by (simp add: store_position_history_window w_def)
  from tag have mem: "''stationary_non_stop'' \<in> set (tags_of r) \<longleftrightarrow> st"
    unfolding r by (auto simp: tags_of_def Let_def)
  have hist: "position_history (detector_of r) (bus_id d) = Some w"
    unfolding r by (simp add: detector_of_def Let_def ph win)
  have eq: "Inr st =
     (if length w < 3 then Inr False
      else (case sum_legs L 0 (drop (length w - 5) w) of
              Inl e \<Rightarrow> Inl e
            | Inr t \<Rightarrow>
                Inr (t < 20
                     \<and> fsub (e_timestamp (last w))
                            (e_timestamp (hd (drop (length w - 5) w))) > 60)))"
    using st unfolding is_stationary_sum_legs win by simp
  have char: "st \<longleftrightarrow> 3 \<le> length w
                   \<and> (\<exists>t. sum_legs L 0 (drop (length w - 5) w) = Inr t \<and> t < 20)
                   \<and> fsub (e_timestamp (last w))
                          (e_timestamp (hd (drop (length w - 5) w))) > 60"
  proof (cases "length w < 3")
    case True
    with eq show ?thesis by simp
  next
    case False
    show ?thesis
    proof (cases "sum_legs L 0 (drop (length w - 5) w)")
      case (Inl e)
      with eq False show ?thesis by simp
    next
      case (Inr t)
      with eq False show ?thesis by auto
    qed
  qed
  have short: "length w < 3 \<longrightarrow> ''stationary_non_stop'' \<notin> set (tags_of r)"
    unfolding mem char by simp
  from hist mem char short show ?thesis
    unfolding w_def [symmetric] by (intro exI [of _ w]) simp
qed

lemma three_at_one_place:
  "detect_anomalies L t (after_two a b) (report_at t 30)
     = Inr (let tags = (if fsub t t > 120 then [''stale_data''] else [])
                       @ (if 60 < fsub t a then [''stationary_non_stop''] else [])
            in ((tags \<noteq> [], tags, calculate_severity tags),
                \<lparr>position_history =
                   [''B1'' \<mapsto> [entry_of (report_at a 30), entry_of (report_at b 30),
                                 entry_of (report_at t 30)]],
                 speed_history = [''B1'' \<mapsto> [30, 30, 30]]\<rparr>))"
proof -
  let ?s1 = "store_position_history (after_two a b) (bus_id (report_at t 30)) (report_at t 30)"
  have id: "bus_id (report_at t 30) = ''B1''" "speed (report_at t 30) = Some 30"
    "timestamp (report_at t 30) = t" "\<not> is_off_route (report_at t 30)"
    by (simp_all add: report_at_def is_off_route_def)
  have st: "is_stationary_at_non_stop L ?s1 (bus_id (report_at t 30)) (report_at t 30)
            = Inr (60 < fsub t a)"
    by (simp add: id is_stationary_sum_legs store_position_history_window after_two_def Let_def
        entry_of_def report_at_def haversine_same_point fadd_def)
  have sp: "detect_speed_anomaly ?s1 (bus_id (report_at t 30)) (speed (report_at t 30))
            = Inr (None, \<lparr>position_history =
                   [''B1'' \<mapsto> [entry_of (report_at a 30), entry_of (report_at b 30),
                                 entry_of (report_at t 30)]],
                 speed_history = [''B1'' \<mapsto> [30, 30, 30]]\<rparr>)"
    by (simp add: id detect_speed_anomaly_unfold Let_def store_position_history_def
        after_two_def max_history_length_def)
  show ?thesis
    using detect_anomalies_returns [OF st sp, of t] by (simp add: id Let_def)
qed

text \<open>
  Claim C5 as stated fails: three samples at one place with timestamps \<open>-2\<^sup>-\<^sup>6\<^sup>0\<close>, 30 and
  60 have path distance 0 and span more than 60 seconds, but the double-precision span
  is exactly 60 and the code gives no tag.
\<close>

theorem stationary_exact_span_counterexample:
  "3 \<le> length [entry_of (report_at (- (1 / 2 ^ 60)) 30), entry_of (report_at 30 30),
                entry_of (report_at 60 30)]
   \<and> spec_path_distance [entry_of (report_at (- (1 / 2 ^ 60)) 30), entry_of (report_at 30 30),
                          entry_of (report_at 60 30)] < 20
   \<and> e_timestamp (entry_of (report_at 60 30))
       - e_timestamp (entry_of (report_at (- (1 / 2 ^ 60)) 30)) > 60
   \<and> map_sum id (\<lambda>r. (tags_of r, position_history (detector_of r) ''B1''))
        (detect_anomalies ideal_libm 60 (after_two (- (1 / 2 ^ 60)) 30) (report_at 60 30))
     = Inr ([], Some [entry_of (report_at (- (1 / 2 ^ 60)) 30), entry_of (report_at 30 30),
                      entry_of (report_at 60 30)])"
proof -
  have "spec_path_distance [entry_of (report_at (- (1 / 2 ^ 60)) 30), entry_of (report_at 30 30),
                          entry_of (report_at 60 30)] = 0"
    by (simp add: entry_of_def report_at_def spec_distance_same)
  moreover have "e_timestamp (entry_of (report_at 60 30))
       - e_timestamp (entry_of (report_at (- (1 / 2 ^ 60)) 30)) > 60"
    by (simp add: entry_of_def report_at_def)
  moreover have "map_sum id (\<lambda>r. (tags_of r, position_history (detector_of r) ''B1''))
        (detect_anomalies ideal_libm 60 (after_two (- (1 / 2 ^ 60)) 30) (report_at 60 30))
     = Inr ([], Some [entry_of (report_at (- (1 / 2 ^ 60)) 30), entry_of (report_at 30 30),
                      entry_of (report_at 60 30)])"
    unfolding three_at_one_place fsub_values
    by (simp add: tags_of_def detector_of_def)
  ultimately show ?thesis by simp
qed

theorem stationary_iff_float_path_and_span_witness:
  "detect_anomalies ideal_libm 61 (after_two 0 30) (report_at 61 30)
     = Inr ((True, [''stationary_non_stop''], ''warning''),
            \<lparr>position_history =
                   [''B1'' \<mapsto> [entry_of (report_at 0 30), entry_of (report_at 30 30),
                                 entry_of (report_at 61 30)]],
             speed_history = [''B1'' \<mapsto> [30, 30, 30]]\<rparr>)
   \<and> detect_anomalies ideal_libm 60 (after_two 0 30) (report_at 60 30)
     = Inr ((False, [], ''info''),
            \<lparr>position_history =
                   [''B1'' \<mapsto> [entry_of (report_at 0 30), entry_of (report_at 30 30),
                                 entry_of (report_at 60 30)]],
             speed_history = [''B1'' \<mapsto> [30, 30, 30]]\<rparr>)
   \<and> (\<exists>t. sum_legs ideal_libm 0
              [entry_of (report_at 0 30), entry_of (report_at 30 30),
               entry_of (report_at 61 30)] = Inr t \<and> t < 20)
   \<and> fsub 61 0 > 60 \<and> \<not> fsub 60 0 > 60"
proof -
  have a: "detect_anomalies ideal_libm 61 (after_two 0 30) (report_at 61 30)
     = Inr ((True, [''stationary_non_stop''], ''warning''),
            \<lparr>position_history =
                   [''B1'' \<mapsto> [entry_of (report_at 0 30), entry_of (report_at 30 30),
                                 entry_of (report_at 61 30)]],
             speed_history = [''B1'' \<mapsto> [30, 30, 30]]\<rparr>)"
    unfolding three_at_one_place fsub_values
    by (simp add: calculate_severity_def critical_anomalies_def warning_anomalies_def)
  have b: "detect_anomalies ideal_libm 60 (after_two 0 30) (report_at 60 30)
     = Inr ((False, [], ''info''),
            \<lparr>position_history =
                   [''B1'' \<mapsto> [entry_of (report_at 0 30), entry_of (report_at 30 30),
                                 entry_of (report_at 60 30)]],
             speed_history = [''B1'' \<mapsto> [30, 30, 30]]\<rparr>)"
    unfolding three_at_one_place fsub_values
    by (simp add: calculate_severity_def)
  have id: "bus_id (report_at 61 30) = ''B1''" by (simp add: report_at_def)
  from stationary_iff_float_path_and_span [OF a] a b
  show ?thesis
    by (simp add: id tags_of_def detector_of_def entry_of_def report_at_def fsub_values)
qed

section \<open>The speed rule and the read handlers on examples\<close>

lemma five_at_one_place:
  "\<exists>sa. (sa = speed_of_window)
     \<and> detect_anomalies L 40 (after_four v1 v2 v3 v4) (report_at 40 v)
       = Inr (let tags = (case sa of None \<Rightarrow> [] | Some t \<Rightarrow> [t])
              in ((tags \<noteq> [], tags, calculate_severity tags),
                  \<lparr>position_history =
                     [''B1'' \<mapsto> [entry_of (report_at 0 v1), entry_of (report_at 10 v2),
                                   entry_of (report_at 20 v3), entry_of (report_at 30 v4),
                                   entry_of (report_at 40 v)]],
                   speed_history = [''B1'' \<mapsto> [v1, v2, v3, v4, v]]\<rparr>))"
  if "speed_of_window =
       (let avg = rnd ((v1 + v2 + v3 + v4 + v) / 5)
        in if avg > 0 \<and> v > fmul avg 3 then Some ''speed_spike''
           else if avg > 10 \<and> v < fmul avg (rnd 0.3) then Some ''speed_drop''
           else None)"
proof -
  let ?d = "report_at 40 v"
  let ?s1 = "store_position_history (after_four v1 v2 v3 v4) (bus_id ?d) ?d"
  have id: "bus_id ?d = ''B1''" "speed ?d = Some v" "timestamp ?d = 40" "\<not> is_off_route ?d"
    by (simp_all add: report_at_def is_off_route_def)
  have st: "is_stationary_at_non_stop L ?s1 (bus_id ?d) ?d = Inr False"
    by (simp add: id is_stationary_sum_legs store_position_history_window after_four_def Let_def
        entry_of_def report_at_def haversine_same_point fadd_def fsub_values)
  have sp: "detect_speed_anomaly ?s1 (bus_id ?d) (speed ?d)
            = Inr (speed_of_window,
                   \<lparr>position_history =
                     [''B1'' \<mapsto> [entry_of (report_at 0 v1), entry_of (report_at 10 v2),
                                   entry_of (report_at 20 v3), entry_of (report_at 30 v4),
                                   entry_of (report_at 40 v)]],
                   speed_history = [''B1'' \<mapsto> [v1, v2, v3, v4, v]]\<rparr>)"
    unfolding that
    by (simp add: id detect_speed_anomaly_unfold Let_def store_position_history_def
        after_four_def max_history_length_def add.assoc)
  show ?thesis
    using detect_anomalies_returns [OF st sp, of 40]
    by (simp add: id Let_def fsub_values)
qed

lemma mean_of_20_20_20_20_61:
  "(let avg = rnd ((20 + 20 + 20 + 20 + 61) / 5)
    in if avg > 0 \<and> 61 > fmul avg 3 then Some ''speed_spike''
       else if avg > 10 \<and> 61 < fmul avg (rnd 0.3) then Some ''speed_drop''
       else None) = None"
proof -
  have avg: "rnd ((20 + 20 + 20 + 20 + 61) / 5) = 7937594343240499 / 2 ^ 48"
    using rnd_141_fifths by simp
  have a: "\<not> 61 > fmul (7937594343240499 / 2 ^ 48) 3"
    using mean_28_times_3 by (simp add: fmul_def)
  have "fmul (7937594343240499 / 2 ^ 48) (rnd 0.3)
        = rnd (7937594343240499 / 2 ^ 48 * (5404319552844595 / 2 ^ 54))"
    unfolding fmul_def rnd_three_tenths by (rule refl)
  with mean_28_times_03 have b: "\<not> 61 < fmul (7937594343240499 / 2 ^ 48) (rnd 0.3)"
    by (simp only: not_less less_imp_le)
  show ?thesis unfolding avg Let_def using a b by simp
qed

text \<open>
  Claim C2 as stated fails: after four samples of speed 20 (mean 20), the report with
  speed 61 gets no tag, since the mean the code compares with is taken over the window
  that already contains 61 (141 / 5, about 28.2).
\<close>

theorem speed_61_after_mean_20_counterexample:
  "statistics_mean [20, 20, 20, 20] = Inr 20
   \<and> speed_history (after_four 20 20 20 20) ''B1'' = Some [20, 20, 20, 20]
   \<and> map_sum id fst (detect_anomalies ideal_libm 40 (after_four 20 20 20 20) (report_at 40 61))
       = Inr (False, [], ''info'')"
proof -
  have "statistics_mean [20, 20, 20, 20] = Inr 20"
    by (simp add: statistics_mean_def rnd_values)
  moreover have "speed_history (after_four 20 20 20 20) ''B1'' = Some [20, 20, 20, 20]"
    by (simp add: after_four_def)
  moreover have "map_sum id fst
        (detect_anomalies ideal_libm 40 (after_four 20 20 20 20) (report_at 40 61))
       = Inr (False, [], ''info'')"
    using five_at_one_place [OF mean_of_20_20_20_20_61 [symmetric], where L = ideal_libm]
    by (simp add: Let_def calculate_severity_def)
  ultimately show ?thesis by simp
qed

text \<open>
  Claim C2, amended. Whenever \<open>detect_anomalies\<close> returns for a report with a speed \<open>v\<close>,
  let \<open>w\<close> be the vehicle's speed window after \<open>v\<close> has been appended (and the window cut to
  its last 60) and \<open>m\<close> the value of \<open>statistics.mean\<close> on it. The tag \<open>speed_spike\<close> is
  produced exactly when \<open>w\<close> has at least 5 samples, \<open>m\<close> is positive and \<open>v\<close> exceeds the
  float product \<open>m * 3\<close>. So when \<open>w\<close>, the current speed included, has at least 5 samples
  and \<open>m\<close> is 20, speed 61 yields the tag and speed exactly 60 does not.
\<close>

theorem speed_spike_against_window_mean:
  assumes "detect_anomalies L now self d = Inr r" and "speed d = Some v"
  shows "\<exists>w m. speed_history (detector_of r) (bus_id d) = Some w
          \<and> w = (let h1 = (case speed_history self (bus_id d) of None \<Rightarrow> [] | Some h \<Rightarrow> h)
                           @ [v]
                 in drop (length h1 - 60) h1)
          \<and> statistics_mean w = Inr m
          \<and> (''speed_spike'' \<in> set (tags_of r)
               \<longleftrightarrow> 5 \<le> length w \<and> 0 < m \<and> fmul m 3 < v)
          \<and> (5 \<le> length w \<and> m = 20
               \<longrightarrow> (''speed_spike'' \<in> set (tags_of r) \<longleftrightarrow> 60 < v))"
proof -
  let ?s1 = "store_position_history self (bus_id d) d"
  define w where "w = (let h1 = (case speed_history self (bus_id d) of None \<Rightarrow> [] | Some h \<Rightarrow> h)
                           @ [v]
                 in drop (length h1 - 60) h1)"
  define m where "m = rnd (sum_list w / real (length w))"
  let ?tag = "if length w < 5 then None
              else if m > 0 \<and> v > fmul m 3 then Some ''speed_spike''
              else if m > 10 \<and> v < fmul m (rnd 0.3) then Some ''speed_drop''
              else None"
  have ne: "w \<noteq> []" by (simp add: w_def Let_def)
  then have mean: "statistics_mean w = Inr m" by (simp add: statistics_mean_def m_def)
  have dsa: "detect_speed_anomaly ?s1 (bus_id d) (speed d)
        = Inr (?tag, ?s1\<lparr>speed_history := (speed_history self)(bus_id d \<mapsto> w)\<rparr>)"
    unfolding assms(2) detect_speed_anomaly_unfold store_position_history_speed w_def m_def Let_def
    by (rule refl)
  from assms(1) obtain st sa self2 where
    sa: "detect_speed_anomaly ?s1 (bus_id d) (speed d) = Inr (sa, self2)"
    and r: "r = (let tags = (if fsub now (timestamp d) > 120 then [''stale_data''] else [])
                        @ (if st then [''stationary_non_stop''] else [])
                        @ (case sa of None \<Rightarrow> [] | Some t \<Rightarrow> [t])
                        @ (if is_off_route d then [''off_route''] else [])
             in ((tags \<noteq> [], tags, calculate_severity tags), self2))"
    by (rule detect_anomalies_InrD)
  from sa dsa have sa_eq: "sa = ?tag"
    and s2: "self2 = ?s1\<lparr>speed_history := (speed_history self)(bus_id d \<mapsto> w)\<rparr>"
    by simp_all
  have 2: "speed_history (detector_of r) (bus_id d) = Some w"
    by (simp add: r detector_of_def Let_def s2)
  have 3: "''speed_spike'' \<in> set (tags_of r) \<longleftrightarrow> sa = Some ''speed_spike''"
    by (auto simp: r tags_of_def Let_def split: option.splits)
  have 4: "sa = Some ''speed_spike'' \<longleftrightarrow> 5 \<le> length w \<and> 0 < m \<and> fmul m 3 < v"
    unfolding sa_eq by auto
  have f60: "fmul 20 3 = 60" using rnd_values by (simp add: fmul_def)
  have 5: "5 \<le> length w \<and> m = 20 \<longrightarrow> (sa = Some ''speed_spike'' \<longleftrightarrow> 60 < v)"
    unfolding 4 using f60 by auto
  from 2 3 4 5 mean show ?thesis
    by (intro exI [of _ w] exI [of _ m]) (simp add: w_def)
qed


theorem speed_spike_against_window_mean_witness:
  "speed (report_at 40 61) = Some 61
   \<and> (\<exists>r. detect_anomalies ideal_libm 40 (after_four 10 10 10 9) (report_at 40 61) = Inr r
          \<and> speed_history (detector_of r) ''B1'' = Some [10, 10, 10, 9, 61]
          \<and> statistics_mean [10, 10, 10, 9, 61] = Inr 20
          \<and> ''speed_spike'' \<in> set (tags_of r))
   \<and> speed (report_at 40 60) = Some 60
   \<and> (\<exists>r. detect_anomalies ideal_libm 40 (after_four 10 10 10 10) (report_at 40 60) = Inr r
          \<and> speed_history (detector_of r) ''B1'' = Some [10, 10, 10, 10, 60]
          \<and> statistics_mean [10, 10, 10, 10, 60] = Inr 20
          \<and> ''speed_spike'' \<notin> set (tags_of r))"
proof -
  have h1: "speed (report_at 40 61) = Some 61" and h2: "speed (report_at 40 60) = Some 60"
    by (simp_all add: report_at_def)
  have id: "bus_id (report_at 40 v) = ''B1''" for v by (simp add: report_at_def)
  have m1: "statistics_mean [10, 10, 10, 9, 61] = Inr 20"
    and m2: "statistics_mean [10, 10, 10, 10, 60] = Inr 20"
    using rnd_values by (simp_all add: statistics_mean_def)
  obtain r1 where r1: "detect_anomalies ideal_libm 40 (after_four 10 10 10 9) (report_at 40 61)
                       = Inr r1"
    using five_at_one_place
      [OF refl, where L = ideal_libm and ?v1.0 = 10 and ?v2.0 = 10 and ?v3.0 = 10
        and ?v4.0 = 9 and v = 61]
    by blast
  obtain r2 where r2: "detect_anomalies ideal_libm 40 (after_four 10 10 10 10) (report_at 40 60)
                       = Inr r2"
    using five_at_one_place
      [OF refl, where L = ideal_libm and ?v1.0 = 10 and ?v2.0 = 10 and ?v3.0 = 10
        and ?v4.0 = 10 and v = 60]
    by blast
  have a: "speed_history (detector_of r1) ''B1'' = Some [10, 10, 10, 9, 61]
          \<and> ''speed_spike'' \<in> set (tags_of r1)"
    using speed_spike_against_window_mean [OF r1 h1] m1
    by (auto simp: id after_four_def Let_def)
  have b: "speed_history (detector_of r2) ''B1'' = Some [10, 10, 10, 10, 60]
          \<and> ''speed_spike'' \<notin> set (tags_of r2)"
    using speed_spike_against_window_mean [OF r2 h2] m2
    by (auto simp: id after_four_def Let_def)
  from h1 h2 r1 r2 a b m1 m2 show ?thesis by blast
qed

lemma read_after_one_report:
  "detect_anomalies L 1001 (detector example_app) example_bus
     = Inr ((False, [], ''info''),
            \<lparr>position_history = [''WEST_001'' \<mapsto> [entry_of example_bus, entry_of example_bus]],
             speed_history = [''WEST_001'' \<mapsto> [30, 30]]\<rparr>)"
proof -
  have f: "\<not> fsub 1001 1000 > 120" unfolding fsub_values by simp
  show ?thesis
    using f
    by (simp add: detect_anomalies_def Let_def store_position_history_def
        is_stationary_at_non_stop_def detect_speed_anomaly_def example_bus_def example_app_def
        max_history_length_def stale_threshold_def is_off_route_def calculate_severity_def)
qed

text \<open>
  Claim C1, on the example: bus \<open>WEST_001\<close> has been submitted once, so its windows hold
  one sample. Serving \<open>GET /buses\<close>, or \<open>GET /buses/WEST_001\<close>, runs \<open>detect_anomalies\<close>
  on the stored report again and leaves two samples in the position window and in the
  speed window: the read handlers are not read-only.
\<close>

theorem get_all_buses_records_sample:
  "detect_anomalies L 1000 init_detector example_bus
     = Inr ((False, [], ''info''), detector example_app)
   \<and> map_sum id (\<lambda>r. (position_history (detector (snd r)) ''WEST_001'',
                       speed_history (detector (snd r)) ''WEST_001''))
        (get_all_buses L (\<lambda>i. 1001) example_app)
     = Inr (Some [entry_of example_bus, entry_of example_bus], Some [30, 30])
   \<and> map_sum id (\<lambda>r. (position_history (detector (snd r)) ''WEST_001'',
                       speed_history (detector (snd r)) ''WEST_001''))
        (get_bus L (\<lambda>i. 1001) example_app ''WEST_001'')
     = Inr (Some [entry_of example_bus, entry_of example_bus], Some [30, 30])"
proof -
  have a: "detect_anomalies L 1000 init_detector example_bus
     = Inr ((False, [], ''info''), detector example_app)"
    unfolding fresh_report_example fsub_values by (simp add: calculate_severity_def)
  have c: "active_buses example_app = [(''WEST_001'', example_bus)]"
    by (simp add: example_app_def)
  show ?thesis
    by (simp add: a get_all_buses_def get_bus_def c read_after_one_report)
qed

section \<open>Properties of the history window and of the broadcast\<close>

lemma slice_last_append:
  assumes "0 < n"
  shows "slice_last n (slice_last n xs @ ys) = slice_last n (xs @ ys)"
proof (cases "length xs \<le> n")
  case True
  then show ?thesis using assms by (simp add: slice_last_def)
next
  case False
  define k where "k = length xs - n"
  from False have len: "length xs = k + n" by (simp add: k_def)
  have "slice_last n (drop k xs @ ys) = drop (length ys) (drop k xs @ ys)"
    using assms by (simp add: slice_last_def len)
  also have "\<dots> = drop (k + length ys) xs @ drop (length ys - n) ys"
    by (simp add: len add.commute)
  also have "\<dots> = drop (k + length ys) (xs @ ys)"
    by (simp add: len)
  also have "\<dots> = slice_last n (xs @ ys)"
    using assms by (simp add: slice_last_def len)
  finally show ?thesis using assms by (simp add: slice_last_def k_def)
qed

lemma store_position_history_slice:
  "position_history (store_position_history self bid d) =
     (position_history self)(bid \<mapsto>
        slice_last 60 ((case position_history self bid of None \<Rightarrow> [] | Some h \<Rightarrow> h)
                        @ [entry_of d]))"
  by (auto simp: store_position_history_def Let_def slice_last_def max_history_length_def)

lemma store_all_window:
  "position_history (foldl (\<lambda>s (bid, d). store_position_history s bid d) init_detector ps) vid =
     (let es = map (\<lambda>p. entry_of (snd p)) (filter (\<lambda>p. fst p = vid) ps)
      in if es = [] then None else Some (slice_last 60 es))"
proof (induction ps rule: rev_induct)
  case Nil
  then show ?case by (simp add: init_detector_def)
next
  case (snoc p ps)
  obtain bid d where p: "p = (bid, d)" by (cases p)
  let ?es = "map (\<lambda>p. entry_of (snd p)) (filter (\<lambda>p. fst p = vid) ps)"
  let ?s = "foldl (\<lambda>s (bid, d). store_position_history s bid d) init_detector ps"
  have step: "position_history (foldl (\<lambda>s (bid, d). store_position_history s bid d) init_detector (ps @ [p]))
     = (position_history ?s)(bid \<mapsto>
        slice_last 60 ((case position_history ?s bid of None \<Rightarrow> [] | Some h \<Rightarrow> h)
                        @ [entry_of d]))"
    by (simp add: p store_position_history_slice)
  show ?case
  proof (cases "bid = vid")
    case True
    have old: "(case position_history ?s vid of None \<Rightarrow> [] | Some h \<Rightarrow> h) = slice_last 60 ?es"
      using snoc.IH by (simp add: Let_def slice_last_def)
    have "slice_last 60 (slice_last 60 ?es @ [entry_of d]) = slice_last 60 (?es @ [entry_of d])"
      by (rule slice_last_append) simp
    then show ?thesis
      unfolding step using True by (simp add: old p Let_def)
  next
    case False
    with snoc.IH show ?thesis
      unfolding step by (simp add: p Let_def)
  qed
qed

text \<open>
  Claim C4. After any sequence of insertions into the fresh detector, the window of a
  vehicle holds the samples inserted for that vehicle, in insertion order, without the
  oldest ones beyond the last 60: its length is the number of insertions or 60, whichever
  is smaller, so after 60 + k insertions exactly the last 60 samples remain.
\<close>

theorem history_window_keeps_last_60:
  "(let window = position_history
         (foldl (\<lambda>s (bid, d). store_position_history s bid d) init_detector ps) vid;
        samples = map (\<lambda>p. entry_of (snd p)) (filter (\<lambda>p. fst p = vid) ps)
    in window = (if samples = [] then None else Some (drop (length samples - 60) samples))
       \<and> length (case window of None \<Rightarrow> [] | Some h \<Rightarrow> h) = min 60 (length samples))"
proof -
  have "min 60 n = n - (n - 60)" for n :: nat by simp
  then show ?thesis
    by (simp add: store_all_window Let_def slice_last_def)
qed





section \<open>The durable store degrades to a no-op\<close>

lemma try_except_unit: "try_except body () = Inr ()"
  by (cases body) (simp_all add: try_except_def)

lemma try_except_returns: "\<exists>v. try_except body fallback = Inr v"
  by (cases body) (simp_all add: try_except_def)

text \<open>
  Claim C9. No operation of the store raises, whatever the client answers and whatever
  the conversions do: the writes (store, publish, cache, cleanup) return nothing, the
  reads return a value. Without a connection, and when the first call to the client
  raises, a read returns \<open>None\<close> or the empty list; a connect that fails leaves the
  store without a connection, so that every later operation is such a no-op.
\<close>

theorem store_operations_never_raise:
  "store_bus_position self str_of dumps bid bus_data = Inr ()
   \<and> store_anomaly_detection self bid anomaly_data = Inr ()
   \<and> publish_bus_update self dumps_update update = Inr ()
   \<and> store_route_cache self rid route_data = Inr ()
   \<and> cleanup_expired_buses self = Inr ()
   \<and> (\<exists>v. get_bus_position self py_float bid = Inr v)
   \<and> (\<exists>v. get_all_bus_positions self py_float = Inr v)
   \<and> (\<exists>v. get_bus_history self loads bid limit = Inr v)
   \<and> (\<exists>v. get_anomaly_detection self bid = Inr v)
   \<and> (\<exists>v. get_route_cache self rid = Inr v)
   \<and> (\<exists>v. subscribe_to_updates self = Inr v)
   \<and> (\<exists>s. connect from_url self = Inr s)
   \<and> (redis self = None \<longrightarrow>
         get_bus_position self py_float bid = Inr None
       \<and> get_all_bus_positions self py_float = Inr []
       \<and> get_bus_history self loads bid limit = Inr []
       \<and> get_anomaly_detection self bid = Inr None
       \<and> get_route_cache self rid = Inr None
       \<and> subscribe_to_updates self = Inr (None, self))
   \<and> (redis self = Some r \<longrightarrow>
         (isl (r_hgetall r (''bus:'' @ bid))
            \<longrightarrow> get_bus_position self py_float bid = Inr None)
       \<and> (isl (r_keys r ''bus:*'')
            \<longrightarrow> get_all_bus_positions self py_float = Inr [])
       \<and> (isl (r_lrange r (''bus:'' @ bid @ '':history'') 0 (limit - 1))
            \<longrightarrow> get_bus_history self loads bid limit = Inr [])
       \<and> (isl (r_hgetall r (''anomaly:'' @ bid))
            \<longrightarrow> get_anomaly_detection self bid = Inr None)
       \<and> (isl (r_hgetall r (''route:'' @ rid))
            \<longrightarrow> get_route_cache self rid = Inr None)
       \<and> (isl (r_pubsub r)
            \<longrightarrow> subscribe_to_updates self = Inr (None, self)))
   \<and> ((case from_url of Inl e \<Rightarrow> True | Inr c \<Rightarrow> isl (r_ping c))
         \<longrightarrow> connect from_url self = Inr (self\<lparr>redis := None\<rparr>))"
proof -
  have s1: "store_bus_position self str_of dumps bid bus_data = Inr ()"
    by (simp add: store_bus_position_def try_except_unit split: option.splits)
  have s2: "store_anomaly_detection self bid anomaly_data = Inr ()"
    by (simp add: store_anomaly_detection_def try_except_unit split: option.splits)
  have s3: "publish_bus_update self dumps_update update = Inr ()"
    by (simp add: publish_bus_update_def try_except_unit split: option.splits)
  have s4: "store_route_cache self rid route_data = Inr ()"
    by (simp add: store_route_cache_def try_except_unit split: option.splits)
  have s5: "cleanup_expired_buses self = Inr ()"
    by (simp add: cleanup_expired_buses_def split: option.splits)
  have g1: "\<exists>v. get_bus_position self py_float bid = Inr v"
    by (simp add: get_bus_position_def try_except_returns split: option.splits)
  have g2: "\<exists>v. get_all_bus_positions self py_float = Inr v"
    by (simp add: get_all_bus_positions_def try_except_returns split: option.splits)
  have g3: "\<exists>v. get_bus_history self loads bid limit = Inr v"
    by (simp add: get_bus_history_def try_except_returns split: option.splits)
  have g4: "\<exists>v. get_anomaly_detection self bid = Inr v"
    by (simp add: get_anomaly_detection_def split: option.splits sum.splits)
  have g5: "\<exists>v. get_route_cache self rid = Inr v"
    by (simp add: get_route_cache_def split: option.splits sum.splits)
  have g6: "\<exists>v. subscribe_to_updates self = Inr v"
    by (simp add: subscribe_to_updates_def split: option.splits sum.splits)
  have g7: "\<exists>s. connect from_url self = Inr s"
    by (simp add: connect_def split: sum.splits)
  have absent: "redis self = None \<longrightarrow>
         get_bus_position self py_float bid = Inr None
       \<and> get_all_bus_positions self py_float = Inr []
       \<and> get_bus_history self loads bid limit = Inr []
       \<and> get_anomaly_detection self bid = Inr None
       \<and> get_route_cache self rid = Inr None
       \<and> subscribe_to_updates self = Inr (None, self)"
    by (simp add: get_bus_position_def get_all_bus_positions_def get_bus_history_def
        get_anomaly_detection_def get_route_cache_def subscribe_to_updates_def)
  have raising: "redis self = Some r \<longrightarrow>
         (isl (r_hgetall r (''bus:'' @ bid))
            \<longrightarrow> get_bus_position self py_float bid = Inr None)
       \<and> (isl (r_keys r ''bus:*'')
            \<longrightarrow> get_all_bus_positions self py_float = Inr [])
       \<and> (isl (r_lrange r (''bus:'' @ bid @ '':history'') 0 (limit - 1))
            \<longrightarrow> get_bus_history self loads bid limit = Inr [])
       \<and> (isl (r_hgetall r (''anomaly:'' @ bid))
            \<longrightarrow> get_anomaly_detection self bid = Inr None)
       \<and> (isl (r_hgetall r (''route:'' @ rid))
            \<longrightarrow> get_route_cache self rid = Inr None)
       \<and> (isl (r_pubsub r)
            \<longrightarrow> subscribe_to_updates self = Inr (None, self))"
    by (auto simp: get_bus_position_def get_all_bus_positions_def get_bus_history_def
        get_anomaly_detection_def get_route_cache_def subscribe_to_updates_def
        try_except_def then_e_def isl_def)
  have conn: "(case from_url of Inl e \<Rightarrow> True | Inr c \<Rightarrow> isl (r_ping c))
         \<longrightarrow> connect from_url self = Inr (self\<lparr>redis := None\<rparr>)"
    by (auto simp: connect_def then_e_def isl_def split: sum.splits)
  from s1 s2 s3 s4 s5 g1 g2 g3 g4 g5 g6 g7 absent raising conn show ?thesis
    by (intro conjI)
qed


theorem store_operations_never_raise_witness:
  "redis \<lparr>redis = None, pubsub = None\<rparr> = None
   \<and> get_bus_position \<lparr>redis = None, pubsub = None\<rparr> (\<lambda>s. Inl ValueError) ''B1'' = Inr None
   \<and> get_all_bus_positions \<lparr>redis = None, pubsub = None\<rparr> (\<lambda>s. Inl ValueError) = Inr []
   \<and> redis \<lparr>redis = Some down_client, pubsub = None\<rparr> = Some down_client
   \<and> isl (r_hgetall down_client (''bus:'' @ ''B1''))
   \<and> get_bus_position \<lparr>redis = Some down_client, pubsub = None\<rparr> (\<lambda>s. Inl ValueError) ''B1''
       = Inr None
   \<and> isl (r_keys down_client ''bus:*'')
   \<and> get_all_bus_positions \<lparr>redis = Some down_client, pubsub = None\<rparr> (\<lambda>s. Inl ValueError)
       = Inr []
   \<and> isl (r_lrange down_client (''bus:'' @ ''B1'' @ '':history'') 0 (10 - 1))
   \<and> get_bus_history \<lparr>redis = Some down_client, pubsub = None\<rparr>
         (\<lambda>s. Inl JSONDecodeError :: error + unit) ''B1'' 10 = Inr []
   \<and> isl (r_hgetall down_client (''anomaly:'' @ ''B1''))
   \<and> get_anomaly_detection \<lparr>redis = Some down_client, pubsub = None\<rparr> ''B1'' = Inr None
   \<and> isl (r_hgetall down_client (''route:'' @ ''R1''))
   \<and> get_route_cache \<lparr>redis = Some down_client, pubsub = None\<rparr> ''R1'' = Inr None
   \<and> isl (r_pubsub down_client)
   \<and> subscribe_to_updates \<lparr>redis = Some down_client, pubsub = None\<rparr>
       = Inr (None, \<lparr>redis = Some down_client, pubsub = None\<rparr>)
   \<and> (case Inr down_client of Inl e \<Rightarrow> True | Inr c \<Rightarrow> isl (r_ping c))
   \<and> connect (Inr down_client) \<lparr>redis = Some down_client, pubsub = None\<rparr>
       = Inr \<lparr>redis = None, pubsub = None\<rparr>"
proof -
  have d: "isl (r_hgetall down_client k)" "isl (r_keys down_client k)"
    "isl (r_lrange down_client k a b)" "isl (r_pubsub down_client)" "isl (r_ping down_client)"
    for k a b
    by (simp_all add: down_client_def)
  show ?thesis
    using
      store_operations_never_raise
        [of "\<lparr>redis = None, pubsub = None\<rparr>" "\<lambda>v::unit. []" "\<lambda>d. Inl TypeError" "''B1''" "[]"
            "[]" "\<lambda>d::unit. Inl TypeError" "()" "''R1''" "[]" "\<lambda>s. Inl ValueError"
            "\<lambda>s. Inl JSONDecodeError :: error + unit" 10 "Inr down_client" down_client]
      store_operations_never_raise
        [of "\<lparr>redis = Some down_client, pubsub = None\<rparr>" "\<lambda>v::unit. []" "\<lambda>d. Inl TypeError"
            "''B1''" "[]"
            "[]" "\<lambda>d::unit. Inl TypeError" "()" "''R1''" "[]" "\<lambda>s. Inl ValueError"
            "\<lambda>s. Inl JSONDecodeError :: error + unit" 10 "Inr down_client" down_client]
    by (simp add: d)
qed

end
